theory Spec2Isabelle
  imports Complex_Main "HOL-Library.AList"
begin

section \<open>The paginator of discord/ext/paginator/paginator.py\<close>

text \<open>
  A shallow embedding of the class \<open>Paginator\<close>. Python objects that the class only
  passes around (embeds, files, view items, users, messages) are opaque identities.
  Exceptions are values of type \<open>error\<close>; a method is a function from the paginator
  to an outcome and the paginator as the method left it, so that what a method had
  already assigned when it raised is still visible.
\<close>

subsection \<open>Errors\<close>

text \<open>
  Modelled from the spec: the enumeration \<open>PaginatorButtonType\<close> (buttons.py is not
  among the sources), with the six button types of section 3 of the specification.
\<close>

datatype button_type = First | Prev | Page_indicator | Next | Last | Custom

datatype error =
    ValueError_default_group
      \<comment> \<open>ValueError("Only one PageGroup can be set as the default.")\<close>
  | ValueError_not_in_list
      \<comment> \<open>the ValueError of \<open>list.index\<close>: "x is not in list"\<close>
  | ValueError_no_button_type button_type
      \<comment> \<open>ValueError(f"no button_type {button_type} was found in this paginator.")\<close>
  | ValueError_ephemeral
      \<comment> \<open>ValueError("paginator responses cannot be ephemeral if the paginator timeout
          is 15 minutes or greater")\<close>
  | TypeError_list_items
      \<comment> \<open>TypeError("All list items must be embeds or files.")\<close>
  | TypeError_page_content
      \<comment> \<open>TypeError("Page content must be a Page object, string, an embed, a list of
          embeds, a file, or a list of files.")\<close>
  | TypeError_not_iterable
      \<comment> \<open>the TypeError of \<open>x in None\<close>: "argument of type 'NoneType' is not iterable"\<close>
  | KeyError button_type
      \<comment> \<open>the KeyError of \<open>self.buttons[key]\<close>\<close>
  | IndexError
      \<comment> \<open>the IndexError of \<open>list[i]\<close>: "list index out of range"\<close>
  | AttributeError
      \<comment> \<open>the AttributeError of an attribute read on an object that lacks it
          (\<open>None.edit\<close>, \<open>None.id\<close>, \<open>x.pages\<close>)\<close>
  | HostError nat
      \<comment> \<open>an exception raised by the host library or by a page callback\<close>

subsection \<open>Pages and page groups\<close>

datatype embed = Embed nat
datatype file_obj = File nat
datatype view = View (view_children: "nat list")

text \<open>
  Modelled from the spec: the class \<open>Page\<close> (pages.py is not among the sources).
  Section 3 of the specification gives its fields: content (optional text), embeds,
  files, custom_view (optional) and callback (optional).
\<close>

record page =
  content :: "string option"
  embeds :: "embed list"
  files :: "file_obj list"
  page_custom_view :: "view option"
  callback :: "nat option"

text \<open>
  Modelled from the spec: the constructor call \<open>Page(content=c, embeds=e, files=f)\<close>
  as \<open>get_page_content\<close> writes it; the fields it does not pass are absent.
\<close>

definition Page :: "string option \<Rightarrow> embed list \<Rightarrow> file_obj list \<Rightarrow> page" where
  "Page c e f = \<lparr>content = c, embeds = e, files = f, page_custom_view = None, callback = None\<rparr>"

text \<open>An element of a Python list given as page content.\<close>

datatype obj = EmbedObj embed | FileObj file_obj | OtherObj

text \<open>
  Modelled from the spec: the class \<open>PageGroup\<close> (pages.py is not among the sources)
  with its label, its pages and its default flag. \<open>pyval\<close> is a Python value in a
  page list: a \<open>Page\<close>, a \<open>str\<close>, a \<open>discord.Embed\<close>, a \<open>discord.File\<close>, a
  \<open>list\<close>, a \<open>PageGroup\<close>, or anything else.
\<close>

datatype pyval =
    PageV page
  | StrV string
  | EmbedV embed
  | FileV file_obj
  | ListV "obj list"
  | GroupV page_group
  | OtherV
and page_group = PageGroup (label: string) (group_pages: "pyval list") (default_flag: bool)

fun is_Embed :: "obj \<Rightarrow> bool" where
  "is_Embed (EmbedObj e) = True"
| "is_Embed x = False"

fun is_File :: "obj \<Rightarrow> bool" where
  "is_File (FileObj f) = True"
| "is_File x = False"

fun the_embeds :: "obj list \<Rightarrow> embed list" where
  "the_embeds [] = []"
| "the_embeds (EmbedObj e # xs) = e # the_embeds xs"
| "the_embeds (x # xs) = the_embeds xs"

fun the_files :: "obj list \<Rightarrow> file_obj list" where
  "the_files [] = []"
| "the_files (FileObj f # xs) = f # the_files xs"
| "the_files (x # xs) = the_files xs"

text \<open>
  \<open>Paginator.get_page_content\<close> (a static method). The branches are tried in the
  order of the source: Page, str, Embed, File, list, anything else. In the list
  branch \<open>all(isinstance(x, discord.Embed) for x in page)\<close> is \<open>list_all is_Embed\<close>,
  under which \<open>the_embeds\<close> is the list itself.
\<close>

fun get_page_content :: "pyval \<Rightarrow> error + page" where
  "get_page_content (PageV p) = Inr p"
| "get_page_content (StrV s) = Inr (Page (Some s) [] [])"
| "get_page_content (EmbedV e) = Inr (Page None [e] [])"
| "get_page_content (FileV f) = Inr (Page None [] [f])"
| "get_page_content (ListV xs) =
     (if list_all is_Embed xs then Inr (Page None (the_embeds xs) [])
      else if list_all is_File xs then Inr (Page None [] (the_files xs))
      else Inl TypeError_list_items)"
| "get_page_content (GroupV g) = Inl TypeError_page_content"
| "get_page_content OtherV = Inl TypeError_page_content"

text \<open>
  A list comprehension \<open>[f(x) for x in xs]\<close> whose body may raise: the first
  exception ends it.
\<close>

fun comprehension :: "('a \<Rightarrow> error + 'b) \<Rightarrow> 'a list \<Rightarrow> error + 'b list" where
  "comprehension f [] = Inr []"
| "comprehension f (x # xs) =
     (case f x of
        Inl e \<Rightarrow> Inl e
      | Inr y \<Rightarrow> (case comprehension f xs of Inl e \<Rightarrow> Inl e | Inr ys \<Rightarrow> Inr (y # ys)))"

text \<open>
  \<open>Paginator.get_page_group_content\<close>: reading \<open>page_group.pages\<close> of a value that
  is not a PageGroup raises AttributeError.
\<close>

fun get_page_group_content :: "pyval \<Rightarrow> error + page list" where
  "get_page_group_content (GroupV g) = comprehension get_page_content (group_pages g)"
| "get_page_group_content x = Inl AttributeError"

subsection \<open>Buttons, menu and view items\<close>

datatype button_style = Blurple | Red | Gray | Green

text \<open>
  Modelled from the spec: the class \<open>PaginatorButton\<close> (buttons.py is not among the
  sources), with the attributes that paginator.py reads and writes: \<open>button_type\<close>,
  \<open>label\<close>, \<open>_label\<close> (here \<open>orig_label\<close>: the normal label, to which a render resets
  \<open>label\<close>), \<open>loop_label\<close>, \<open>emoji\<close>, \<open>style\<close>, \<open>row\<close>, \<open>hidden\<close>, \<open>disabled\<close>, and
  \<open>paginator\<close> (here \<open>attached\<close>: whether the back reference has been set).
\<close>

record paginator_button =
  button_type :: button_type
  label :: "string option"
  orig_label :: "string option"
  loop_label :: "string option"
  emoji :: "string option"
  style :: button_style
  row :: int
  hidden :: bool
  disabled :: bool
  attached :: bool

text \<open>
  Modelled from the spec: the constructor call
  \<open>PaginatorButton(button_type, label=..., style=..., loop_label=..., disabled=..., row=...)\<close>
  as \<open>add_default_buttons\<close> writes it. The normal label is the label given; a new
  button is not hidden and has no emoji.
\<close>

definition PaginatorButton ::
  "button_type \<Rightarrow> string option \<Rightarrow> button_style \<Rightarrow> string option \<Rightarrow> bool \<Rightarrow> int
     \<Rightarrow> paginator_button" where
  "PaginatorButton t l st ll d r =
     \<lparr>button_type = t, label = l, orig_label = l, loop_label = ll, emoji = None,
      style = st, row = r, hidden = False, disabled = d, attached = False\<rparr>"

text \<open>
  Button objects are shared: the registry \<open>self.buttons\<close>, the list
  \<open>self.custom_buttons\<close> and the view's children hold references to the same
  objects, and a render mutates them in place. A reference is a number; the objects
  live in \<open>button_objs\<close> of the paginator state.
\<close>

type_synonym ref = nat

text \<open>
  Modelled from the spec: the class \<open>PaginatorMenu\<close> (buttons.py is not among the
  sources): a selection control bound to the page groups, with a placeholder.
\<close>

record paginator_menu =
  menu_page_groups :: "pyval list option"
  placeholder :: string

definition PaginatorMenu :: "pyval list option \<Rightarrow> string \<Rightarrow> paginator_menu" where
  "PaginatorMenu gs ph = \<lparr>menu_page_groups = gs, placeholder = ph\<rparr>"

text \<open>
  The children of the view (\<open>discord.ui.View.children\<close>): paginator buttons, the
  menu, and the items of custom views.
\<close>

datatype item = ButtonItem ref | MenuItem paginator_menu | ViewItem nat

datatype message = Message nat
datatype interaction = Interaction (user: nat)

text \<open>
  A parameter whose default is the sentinel \<open>discord.MISSING\<close>: either left out,
  or given (possibly as \<open>None\<close>).
\<close>

datatype 'a missing = MISSING | Given 'a

subsection \<open>The paginator state\<close>

record paginator =
  timeout :: "real option"
  pages :: "pyval list"
  current_page :: int
  menu :: "paginator_menu option"
  show_menu :: bool
  menu_placeholder :: string
  page_groups :: "pyval list option"
  default_page_group :: nat
  page_count :: int
  buttons :: "(button_type \<times> ref) list"
  custom_buttons :: "ref list option"
  show_disabled :: bool
  show_indicator :: bool
  disable_on_timeout :: bool
  use_default_buttons :: bool
  default_button_row :: int
  loop_pages :: bool
  custom_view :: "view option missing"
  trigger_on_display :: "bool option"
  message :: "message option"
  usercheck :: bool
  users :: "nat set option"
  children :: "item list"
  button_objs :: "ref \<Rightarrow> paginator_button"
  next_ref :: ref

text \<open>
  A method: the outcome (an exception or a value) and the paginator afterwards.
\<close>

type_synonym 'a action = "paginator \<Rightarrow> (error + 'a) \<times> paginator"

definition return :: "'a \<Rightarrow> 'a action" where
  "return x s = (Inr x, s)"

definition raise :: "error \<Rightarrow> 'a action" where
  "raise e s = (Inl e, s)"

definition and_then :: "'a action \<Rightarrow> ('a \<Rightarrow> 'b action) \<Rightarrow> 'b action" where
  "and_then m f s = (case m s of (Inl e, s') \<Rightarrow> (Inl e, s') | (Inr x, s') \<Rightarrow> f x s')"

definition modify :: "(paginator \<Rightarrow> paginator) \<Rightarrow> unit action" where
  "modify f s = (Inr (), f s)"

definition lift :: "error + 'a \<Rightarrow> 'a action" where
  "lift r s = (r, s)"

definition gets :: "(paginator \<Rightarrow> 'a) \<Rightarrow> 'a action" where
  "gets f s = (Inr (f s), s)"

subsection \<open>Python built-ins\<close>

text \<open>\<open>xs[i]\<close>: a negative index counts from the end; out of range raises IndexError.\<close>

definition getitem :: "'a list \<Rightarrow> int \<Rightarrow> error + 'a" where
  "getitem xs i =
     (if 0 \<le> i \<and> i < int (length xs) then Inr (xs ! nat i)
      else if i < 0 \<and> - int (length xs) \<le> i then Inr (xs ! nat (int (length xs) + i))
      else Inl IndexError)"

text \<open>\<open>xs.index(x)\<close>: the position of the first element equal to x, or ValueError.\<close>

fun list_index :: "'a list \<Rightarrow> 'a \<Rightarrow> error + nat" where
  "list_index [] x = Inl ValueError_not_in_list"
| "list_index (y # ys) x =
     (if y = x then Inr 0
      else (case list_index ys x of Inl e \<Rightarrow> Inl e | Inr n \<Rightarrow> Inr (Suc n)))"

text \<open>\<open>str(n)\<close> of an integer, for the page indicator's f-string.\<close>

definition digit_char :: "nat \<Rightarrow> char" where
  "digit_char d =
     (if d = 0 then CHR ''0'' else if d = 1 then CHR ''1'' else if d = 2 then CHR ''2''
      else if d = 3 then CHR ''3'' else if d = 4 then CHR ''4'' else if d = 5 then CHR ''5''
      else if d = 6 then CHR ''6'' else if d = 7 then CHR ''7'' else if d = 8 then CHR ''8''
      else CHR ''9'')"

function str_nat :: "nat \<Rightarrow> string" where
  "str_nat n = (if n < 10 then [digit_char n] else str_nat (n div 10) @ [digit_char (n mod 10)])"
  by pat_completeness auto
termination
  by (relation "measure id") auto

declare str_nat.simps [simp del]

definition str_int :: "int \<Rightarrow> string" where
  "str_int i = (if i < 0 then CHR ''-'' # str_nat (nat (- i)) else str_nat (nat i))"

text \<open>\<open>f"{self.current_page + 1}/{self.page_count + 1}"\<close>\<close>

definition indicator_label :: "paginator \<Rightarrow> string" where
  "indicator_label s = str_int (current_page s + 1) @ ''/'' @ str_int (page_count s + 1)"

subsection \<open>The view's children (discord.ui.View)\<close>

text \<open>
  \<open>add_item\<close> appends, \<open>remove_item\<close> removes the first occurrence if there is one,
  \<open>clear_items\<close> empties the list. The host's own limits on a view (number of
  children, row widths) are not part of this class and are not modelled.
\<close>

definition add_item :: "item \<Rightarrow> paginator \<Rightarrow> paginator" where
  "add_item i s = s\<lparr>children := children s @ [i]\<rparr>"

definition remove_item :: "item \<Rightarrow> paginator \<Rightarrow> paginator" where
  "remove_item i s = s\<lparr>children := remove1 i (children s)\<rparr>"

definition clear_items :: "paginator \<Rightarrow> paginator" where
  "clear_items s = s\<lparr>children := []\<rparr>"

subsection \<open>Buttons of the paginator\<close>

definition set_obj :: "ref \<Rightarrow> (paginator_button \<Rightarrow> paginator_button) \<Rightarrow> paginator \<Rightarrow> paginator" where
  "set_obj r f s = s\<lparr>button_objs := (button_objs s)(r := f (button_objs s r))\<rparr>"

text \<open>Creating a button object: the next free reference holds it.\<close>

definition new_button :: "paginator_button \<Rightarrow> paginator \<Rightarrow> ref \<times> paginator" where
  "new_button b s =
     (next_ref s, s\<lparr>button_objs := (button_objs s)(next_ref s := b), next_ref := Suc (next_ref s)\<rparr>)"

text \<open>
  \<open>Paginator.add_button\<close>. The assignment \<open>self.buttons[k] = button\<close> on a dict keeps
  the position of a key that is present and appends a new key, as \<open>AList.update\<close> does.
\<close>

definition add_button :: "ref \<Rightarrow> paginator \<Rightarrow> paginator" where
  "add_button r s =
     (let s1 =
        (if button_type (button_objs s r) = Page_indicator then
           (let s' = set_obj r (\<lambda>b. b\<lparr>hidden := show_indicator s\<rparr>) s in
            if label (button_objs s' r) = None \<and> emoji (button_objs s' r) = None
            then set_obj r (\<lambda>b. b\<lparr>label := Some (indicator_label s')\<rparr>) s'
            else s')
         else s);
          s2 = set_obj r (\<lambda>b. b\<lparr>attached := True\<rparr>) s1
      in s2\<lparr>buttons := AList.update (button_type (button_objs s2 r)) r (buttons s2)\<rparr>)"

text \<open>The loop \<open>for button in xs: self.add_button(button)\<close>.\<close>

fun add_buttons :: "ref list \<Rightarrow> paginator \<Rightarrow> paginator" where
  "add_buttons [] s = s"
| "add_buttons (r # rs) s = add_buttons rs (add_button r s)"

text \<open>
  \<open>Paginator.add_default_buttons\<close>: the five button objects are created first, in
  the order of the list, and then added. The loop labels are the arrows U+21AA and
  U+21A9, here as their UTF-8 bytes.
\<close>

definition default_buttons :: "int \<Rightarrow> paginator_button list" where
  "default_buttons r =
     [PaginatorButton First (Some ''<<'') Blurple None False r,
      PaginatorButton Prev (Some ''<'') Red (Some [CHR 0xE2, CHR 0x86, CHR 0xAA]) False r,
      PaginatorButton Page_indicator None Gray None True r,
      PaginatorButton Next (Some ''>'') Green (Some [CHR 0xE2, CHR 0x86, CHR 0xA9]) False r,
      PaginatorButton Last (Some ''>>'') Blurple None False r]"

fun new_buttons :: "paginator_button list \<Rightarrow> paginator \<Rightarrow> ref list \<times> paginator" where
  "new_buttons [] s = ([], s)"
| "new_buttons (b # bs) s =
     (case new_button b s of (r, s1) \<Rightarrow>
        (case new_buttons bs s1 of (rs, s2) \<Rightarrow> (r # rs, s2)))"

definition add_default_buttons :: "paginator \<Rightarrow> paginator" where
  "add_default_buttons s =
     (case new_buttons (default_buttons (default_button_row s)) s of
        (rs, s1) \<Rightarrow> add_buttons rs s1)"

text \<open>\<open>Paginator.remove_button\<close>: \<open>dict.pop\<close> returns the value removed.\<close>

definition remove_button :: "button_type \<Rightarrow> ref action" where
  "remove_button t s =
     (case map_of (buttons s) t of
        None \<Rightarrow> (Inl (ValueError_no_button_type t), s)
      | Some r \<Rightarrow> (Inr r, s\<lparr>buttons := AList.delete t (buttons s)\<rparr>))"

text \<open>\<open>self.buttons[t]\<close>\<close>

definition buttons_getitem :: "button_type \<Rightarrow> ref action" where
  "buttons_getitem t s =
     (case map_of (buttons s) t of None \<Rightarrow> (Inl (KeyError t), s) | Some r \<Rightarrow> (Inr r, s))"

text \<open>\<open>Paginator.add_menu\<close>\<close>

definition add_menu :: "paginator \<Rightarrow> paginator" where
  "add_menu s =
     (let m = PaginatorMenu (page_groups s) (menu_placeholder s)
      in add_item (MenuItem m) (s\<lparr>menu := Some m\<rparr>))"

text \<open>
  \<open>Paginator.update_custom_view\<close>. \<open>isinstance(self.custom_view, discord.ui.View)\<close>
  holds when the attribute is a view, not \<open>None\<close> and not the sentinel.
\<close>

definition remove_items :: "item list \<Rightarrow> paginator \<Rightarrow> paginator" where
  "remove_items its s = fold remove_item its s"

definition add_items :: "item list \<Rightarrow> paginator \<Rightarrow> paginator" where
  "add_items its s = fold add_item its s"

definition update_custom_view :: "view \<Rightarrow> paginator \<Rightarrow> paginator" where
  "update_custom_view v s =
     (let s1 = (case custom_view s of
                  Given (Some own) \<Rightarrow> remove_items (map ViewItem (view_children own)) s
                | _ \<Rightarrow> s)
      in add_items (map ViewItem (view_children v)) s1)"

subsection \<open>Rendering\<close>

text \<open>
  The two blocks of \<open>Paginator.update_buttons\<close> for the next and the previous
  button. Where the source assigns nothing (the loop branches leave \<open>hidden\<close> alone;
  no branch is taken when the current page is beyond the page count), the button
  keeps what it had.
\<close>

definition update_next_button :: "ref \<Rightarrow> paginator \<Rightarrow> paginator" where
  "update_next_button r s =
     (if current_page s = page_count s then
        (if \<not> loop_pages s then set_obj r (\<lambda>b. b\<lparr>hidden := True, label := orig_label b\<rparr>) s
         else set_obj r (\<lambda>b. b\<lparr>label := loop_label b\<rparr>) s)
      else if current_page s < page_count s then
        set_obj r (\<lambda>b. b\<lparr>hidden := False, label := orig_label b\<rparr>) s
      else s)"

definition update_prev_button :: "ref \<Rightarrow> paginator \<Rightarrow> paginator" where
  "update_prev_button r s =
     (if current_page s \<le> 0 then
        (if \<not> loop_pages s then set_obj r (\<lambda>b. b\<lparr>hidden := True, label := orig_label b\<rparr>) s
         else set_obj r (\<lambda>b. b\<lparr>label := loop_label b\<rparr>) s)
      else if current_page s \<ge> 0 then
        set_obj r (\<lambda>b. b\<lparr>hidden := False, label := orig_label b\<rparr>) s
      else s)"

text \<open>The body of the loop \<open>for key, button in self.buttons.items()\<close>.\<close>

definition render_button :: "button_type \<times> ref \<Rightarrow> paginator \<Rightarrow> paginator" where
  "render_button kb s =
     (case kb of (key, r) \<Rightarrow>
        if key \<noteq> Page_indicator then
          (if hidden (button_objs s r) then
             (let s1 = set_obj r (\<lambda>b. b\<lparr>disabled := True\<rparr>) s
              in if show_disabled s1 then add_item (ButtonItem r) s1 else s1)
           else add_item (ButtonItem r) (set_obj r (\<lambda>b. b\<lparr>disabled := False\<rparr>) s))
        else if show_indicator s then add_item (ButtonItem r) s
        else s)"

text \<open>
  \<open>if self.custom_view:\<close> a view is true, \<open>None\<close> and the sentinel
  \<open>discord.MISSING\<close> are false.
\<close>

definition add_own_custom_view :: "paginator \<Rightarrow> paginator" where
  "add_own_custom_view s =
     (case custom_view s of Given (Some v) \<Rightarrow> update_custom_view v s | _ \<Rightarrow> s)"

text \<open>\<open>Paginator.update_buttons\<close>; it returns \<open>self.buttons\<close>.\<close>

definition update_buttons :: "(button_type \<times> ref) list action" where
  "update_buttons =
     and_then (buttons_getitem First) (\<lambda>first_button.
     and_then (modify (\<lambda>s. set_obj first_button (\<lambda>b. b\<lparr>hidden := current_page s \<le> 1\<rparr>) s)) (\<lambda>_.
     and_then (buttons_getitem Last) (\<lambda>last_button.
     and_then (modify (\<lambda>s. set_obj last_button
                 (\<lambda>b. b\<lparr>hidden := current_page s \<ge> page_count s - 1\<rparr>) s)) (\<lambda>_.
     and_then (buttons_getitem Next) (\<lambda>next_button.
     and_then (modify (update_next_button next_button)) (\<lambda>_.
     and_then (buttons_getitem Prev) (\<lambda>prev_button.
     and_then (modify (update_prev_button prev_button)) (\<lambda>_.
     and_then (modify clear_items) (\<lambda>_.
     and_then (gets show_indicator) (\<lambda>indicator_shown.
     and_then (if indicator_shown
               then and_then (buttons_getitem Page_indicator) (\<lambda>ind.
                      modify (\<lambda>s. set_obj ind (\<lambda>b. b\<lparr>label := Some (indicator_label s)\<rparr>) s))
               else return ()) (\<lambda>_.
     and_then (modify (\<lambda>s. fold render_button (buttons s) s)) (\<lambda>_.
     and_then (modify (\<lambda>s. if show_menu s then add_menu s else s)) (\<lambda>_.
     and_then (modify add_own_custom_view) (\<lambda>_.
     gets buttons))))))))))))))"

text \<open>
  The dictionary that \<open>_prepare\<close> returns; its fourth entry, \<open>view\<close>, is the
  paginator itself.
\<close>

record payload =
  payload_content :: "string option"
  payload_embeds :: "embed list"
  payload_files :: "file_obj list"

text \<open>
  \<open>Paginator._prepare\<close>. \<open>Page.update_files\<close> (pages.py) reopens the files of the
  page; the identities of the files, which is all that is modelled of them, stay.
\<close>

definition current_page_item :: "pyval action" where
  "current_page_item = and_then (gets (\<lambda>s. getitem (pages s) (current_page s))) lift"

definition prepare :: "bool \<Rightarrow> payload action" where
  "prepare update_files =
     and_then update_buttons (\<lambda>_.
     and_then current_page_item (\<lambda>page.
     and_then (lift (get_page_content page)) (\<lambda>page_content.
     and_then (modify (\<lambda>s. case page_custom_view page_content of
                                Some v \<Rightarrow> update_custom_view v s
                              | None \<Rightarrow> s)) (\<lambda>_.
     return \<lparr>payload_content = content page_content,
             payload_embeds = embeds page_content,
             payload_files = files page_content\<rparr>))))"

text \<open>
  \<open>**self\<close>: the paginator is a \<open>Mapping\<close>, so unpacking it calls \<open>__iter__\<close> once
  for the keys and \<open>__getitem__\<close> once for each of the four keys \<open>content\<close>,
  \<open>embeds\<close>, \<open>files\<close> and \<open>view\<close>; each of the five calls runs \<open>_prepare()\<close>.
\<close>

definition unpack_self :: "payload action" where
  "unpack_self =
     and_then (prepare False) (\<lambda>keys.
     and_then (prepare False) (\<lambda>c.
     and_then (prepare False) (\<lambda>e.
     and_then (prepare False) (\<lambda>f.
     and_then (prepare False) (\<lambda>v.
     return \<lparr>payload_content = payload_content c,
             payload_embeds = payload_embeds e,
             payload_files = payload_files f\<rparr>)))))"

text \<open>
  What the host and the page callbacks do is given from outside: for each call the
  exception it raises, if any (a number names it). A page callback is taken not to
  touch the paginator.
\<close>

record host =
  defer_raises :: "nat option"
  edit_raises :: "nat option"
  callback_raises :: "nat option"

definition host_ok :: host where
  "host_ok = \<lparr>defer_raises = None, edit_raises = None, callback_raises = None\<rparr>"

definition host_call :: "nat option \<Rightarrow> unit action" where
  "host_call r = (case r of None \<Rightarrow> return () | Some n \<Rightarrow> raise (HostError n))"

text \<open>\<open>Paginator.page_action\<close>\<close>

definition page_action :: "host \<Rightarrow> unit action" where
  "page_action h =
     and_then current_page_item (\<lambda>page.
     and_then (lift (get_page_content page)) (\<lambda>page_content.
     if callback page_content \<noteq> None then
       and_then current_page_item (\<lambda>page'.
       and_then (lift (get_page_content page')) (\<lambda>page_content'.
       host_call (callback_raises h)))
     else return ()))"

text \<open>
  \<open>Paginator.goto_page\<close>. With an interaction: \<open>defer()\<close>, then the keyword
  arguments of \<open>followup.edit_message\<close> in their order (\<open>self.message.id\<close>, \<open>**self\<close>),
  then the call. Without: the attribute \<open>self.message.edit\<close>, then \<open>**self\<close>, then
  the call.
\<close>

definition message_attr :: "unit action" where
  "message_attr =
     and_then (gets message) (\<lambda>m. case m of None \<Rightarrow> raise AttributeError | Some x \<Rightarrow> return ())"

definition goto_page :: "int \<Rightarrow> interaction option \<Rightarrow> host \<Rightarrow> unit action" where
  "goto_page page_number interaction h =
     and_then (modify (\<lambda>s. s\<lparr>current_page := page_number\<rparr>)) (\<lambda>_.
     and_then (prepare True) (\<lambda>_.
     and_then (case interaction of
                 Some i \<Rightarrow>
                   and_then (host_call (defer_raises h)) (\<lambda>_.
                   and_then message_attr (\<lambda>_.
                   and_then unpack_self (\<lambda>_.
                   host_call (edit_raises h))))
               | None \<Rightarrow>
                   and_then message_attr (\<lambda>_.
                   and_then unpack_self (\<lambda>_.
                   host_call (edit_raises h)))) (\<lambda>_.
     and_then (gets trigger_on_display) (\<lambda>trigger.
     if trigger = Some True then page_action h else return ()))))"

text \<open>\<open>Paginator.interaction_check\<close>; it changes nothing.\<close>

definition interaction_check :: "interaction \<Rightarrow> paginator \<Rightarrow> error + bool" where
  "interaction_check i s =
     (if usercheck s then
        (case users s of None \<Rightarrow> Inl TypeError_not_iterable | Some us \<Rightarrow> Inr (user i \<in> us))
      else Inr True)"

text \<open>
  \<open>Paginator.respond\<close>. The host's \<open>interaction.respond\<close> raises or returns a
  message, an interaction (whose \<open>original_response()\<close> raises or returns a message)
  or something else.
\<close>

datatype response = MessageR message | InteractionR "nat + message" | OtherR

definition host_result :: "nat + 'a \<Rightarrow> 'a action" where
  "host_result r = (case r of Inl n \<Rightarrow> raise (HostError n) | Inr x \<Rightarrow> return x)"

definition respond :: "bool \<Rightarrow> nat + response \<Rightarrow> message option action" where
  "respond ephemeral host_respond =
     and_then (gets timeout) (\<lambda>tmo.
     and_then (if ephemeral \<and> (case tmo of None \<Rightarrow> True | Some t \<Rightarrow> t \<ge> 900)
               then raise ValueError_ephemeral else return ()) (\<lambda>_.
     and_then (prepare False) (\<lambda>page.
     and_then (host_result host_respond) (\<lambda>msg.
     and_then (case msg of
                 MessageR m \<Rightarrow> modify (\<lambda>s. s\<lparr>message := Some m\<rparr>)
               | InteractionR orig \<Rightarrow>
                   and_then (host_result orig) (\<lambda>m. modify (\<lambda>s. s\<lparr>message := Some m\<rparr>))
               | OtherR \<Rightarrow> return ()) (\<lambda>_.
     gets message)))))"

subsection \<open>Construction and update\<close>

text \<open>
  The loop over the page list that \<open>__init__\<close> and \<open>update\<close> both have: it stops at
  the first element that is not a PageGroup (\<open>all_groups = False; break\<close>), raises
  at a second group flagged default, and otherwise ends with \<open>all_groups\<close> true. The
  result is \<open>(all_groups, default_group)\<close>.
\<close>

fun scan_page_groups :: "pyval list \<Rightarrow> page_group option \<Rightarrow> error + bool \<times> page_group option" where
  "scan_page_groups [] default_group = Inr (True, default_group)"
| "scan_page_groups (GroupV pg # rest) default_group =
     (if default_flag pg then
        (if default_group \<noteq> None then Inl ValueError_default_group
         else scan_page_groups rest (Some pg))
      else scan_page_groups rest default_group)"
| "scan_page_groups (x # rest) default_group = Inr (False, default_group)"

text \<open>
  The block under \<open>if all_groups:\<close>, the same in \<open>__init__\<close> and \<open>update\<close>:
  \<^verbatim>\<open>
  self.page_groups = self.pages if show_menu else []
  self.default_page_group = self.page_groups.index(default_group)
  self.pages = self.get_page_group_content(self.page_groups[self.default_page_group])
  \<close>
  \<open>show_menu\<close> is the parameter of the call (true, false or, in \<open>update\<close>, left out).
  \<open>index\<close> compares the elements of the list with \<open>default_group\<close>, which is a
  PageGroup or \<open>None\<close>; no element of a page list is \<open>None\<close>.
\<close>

definition select_page_group :: "bool \<Rightarrow> page_group option \<Rightarrow> unit action" where
  "select_page_group show_menu_arg default_group =
     and_then (modify (\<lambda>s. s\<lparr>page_groups := Some (if show_menu_arg then pages s else [])\<rparr>)) (\<lambda>_.
     and_then (gets page_groups) (\<lambda>groups.
     and_then (case groups of
                 None \<Rightarrow> raise AttributeError
               | Some gs \<Rightarrow> lift (list_index (map Some gs) (map_option GroupV default_group))) (\<lambda>i.
     and_then (modify (\<lambda>s. s\<lparr>default_page_group := i\<rparr>)) (\<lambda>_.
     and_then (gets (\<lambda>s. (page_groups s, default_page_group s))) (\<lambda>(groups, i).
     and_then (case groups of
                 None \<Rightarrow> raise AttributeError
               | Some gs \<Rightarrow> lift (getitem gs (int i))) (\<lambda>g.
     and_then (lift (get_page_group_content g)) (\<lambda>ps.
     modify (\<lambda>s. s\<lparr>pages := map PageV ps\<rparr>))))))))"

text \<open>
  The page list part of both: the loop over the list given, then the block.
\<close>

definition classify_pages :: "pyval list \<Rightarrow> bool \<Rightarrow> unit action" where
  "classify_pages given show_menu_arg =
     and_then (lift (scan_page_groups given None)) (\<lambda>(all_groups, default_group).
     if all_groups then select_page_group show_menu_arg default_group else return ())"

definition set_page_count :: "paginator \<Rightarrow> paginator" where
  "set_page_count s = s\<lparr>page_count := max (int (length (pages s)) - 1) 0\<rparr>"

text \<open>The parameters of \<open>__init__\<close> and their defaults.\<close>

record init_args =
  i_pages :: "pyval list"
  i_show_disabled :: bool
  i_show_indicator :: bool
  i_show_menu :: bool
  i_menu_placeholder :: string
  i_author_check :: bool
  i_disable_on_timeout :: bool
  i_use_default_buttons :: bool
  i_default_button_row :: int
  i_loop_pages :: bool
  i_custom_view :: "view option"
  i_timeout :: "real option"
  i_custom_buttons :: "ref list option"
  i_trigger_on_display :: "bool option"
  i_users :: "nat set option"

definition init_defaults :: "pyval list \<Rightarrow> init_args" where
  "init_defaults ps =
     \<lparr>i_pages = ps, i_show_disabled = True, i_show_indicator = True, i_show_menu = False,
      i_menu_placeholder = ''Select Page Group'', i_author_check = False,
      i_disable_on_timeout = True, i_use_default_buttons = True, i_default_button_row = 0,
      i_loop_pages = False, i_custom_view = None, i_timeout = Some 180,
      i_custom_buttons = None, i_trigger_on_display = None, i_users = None\<rparr>"

text \<open>
  The attributes as the plain assignments of \<open>__init__\<close> set them, before the steps
  that can raise or that call other methods. \<open>objs\<close> and \<open>free\<close> are the button
  objects that exist when the constructor is called (the caller's custom buttons)
  and the first unused reference.
\<close>

definition no_objs :: "ref \<Rightarrow> paginator_button" where
  "no_objs r = PaginatorButton Custom None Gray None False 0"

definition init_state :: "(ref \<Rightarrow> paginator_button) \<Rightarrow> ref \<Rightarrow> init_args \<Rightarrow> paginator" where
  "init_state objs free a =
     \<lparr>timeout = i_timeout a, pages = i_pages a, current_page = 0, menu = None,
      show_menu = i_show_menu a, menu_placeholder = i_menu_placeholder a,
      page_groups = None, default_page_group = 0, page_count = 0, buttons = [],
      custom_buttons = i_custom_buttons a, show_disabled = i_show_disabled a,
      show_indicator = i_show_indicator a, disable_on_timeout = i_disable_on_timeout a,
      use_default_buttons = i_use_default_buttons a,
      default_button_row = i_default_button_row a, loop_pages = i_loop_pages a,
      custom_view = Given (i_custom_view a), trigger_on_display = i_trigger_on_display a,
      message = None, usercheck = i_author_check a, users = i_users a, children = [],
      button_objs = objs, next_ref = free\<rparr>"

text \<open>
  \<open>if self.custom_buttons is not None and not self.use_default_buttons: ...
  elif not self.custom_buttons and self.use_default_buttons: ...\<close>
  (\<open>not xs\<close> holds of \<open>None\<close> and of the empty list).
\<close>

definition init_buttons :: "paginator \<Rightarrow> paginator" where
  "init_buttons s =
     (case custom_buttons s of
        Some bs \<Rightarrow>
          if \<not> use_default_buttons s then add_buttons bs s
          else if bs = [] \<and> use_default_buttons s then add_default_buttons s
          else s
      | None \<Rightarrow> if use_default_buttons s then add_default_buttons s else s)"

text \<open>
  \<open>Paginator.__init__\<close>: the page list, the page count, the buttons, the menu. An
  exception leaves no paginator.
\<close>

definition Paginator_init :: "(ref \<Rightarrow> paginator_button) \<Rightarrow> ref \<Rightarrow> init_args \<Rightarrow> error + paginator" where
  "Paginator_init objs free a =
     (case and_then (classify_pages (i_pages a) (i_show_menu a)) (\<lambda>_.
           and_then (modify set_page_count) (\<lambda>_.
           and_then (modify init_buttons) (\<lambda>_.
           modify (\<lambda>s. if show_menu s then add_menu s else s))))
           (init_state objs free a) of
        (Inl e, s) \<Rightarrow> Inl e
      | (Inr u, s) \<Rightarrow> Inr s)"

text \<open>
  The parameters of \<open>update\<close>: \<open>None\<close> is the default of most, \<open>discord.MISSING\<close> of
  \<open>custom_view\<close>, \<open>timeout\<close>, \<open>custom_buttons\<close> and \<open>users\<close>, and 0 of \<open>current_page\<close>.
\<close>

record update_args =
  u_pages :: "pyval list option"
  u_show_disabled :: "bool option"
  u_show_indicator :: "bool option"
  u_show_menu :: "bool option"
  u_author_check :: "bool option"
  u_menu_placeholder :: "string option"
  u_disable_on_timeout :: "bool option"
  u_use_default_buttons :: "bool option"
  u_default_button_row :: "int option"
  u_loop_pages :: "bool option"
  u_custom_view :: "view option missing"
  u_timeout :: "real option missing"
  u_custom_buttons :: "ref list option missing"
  u_trigger_on_display :: "bool option"
  u_interaction :: "interaction option"
  u_current_page :: int
  u_users :: "nat set option missing"

definition update_defaults :: update_args where
  "update_defaults =
     \<lparr>u_pages = None, u_show_disabled = None, u_show_indicator = None, u_show_menu = None,
      u_author_check = None, u_menu_placeholder = None, u_disable_on_timeout = None,
      u_use_default_buttons = None, u_default_button_row = None, u_loop_pages = None,
      u_custom_view = MISSING, u_timeout = MISSING, u_custom_buttons = MISSING,
      u_trigger_on_display = None, u_interaction = None, u_current_page = 0,
      u_users = MISSING\<rparr>"

text \<open>
  \<open>self.pages = pages or self.pages\<close> (\<open>None\<close> and the empty list are false) and
  \<open>self.show_menu = show_menu if show_menu is not None else self.show_menu\<close>.
\<close>

definition update_pages_attr :: "update_args \<Rightarrow> paginator \<Rightarrow> paginator" where
  "update_pages_attr a s =
     (let s1 = s\<lparr>pages := (case u_pages a of
                              None \<Rightarrow> pages s
                            | Some ps \<Rightarrow> if ps = [] then pages s else ps)\<rparr>
      in s1\<lparr>show_menu := (case u_show_menu a of Some b \<Rightarrow> b | None \<Rightarrow> show_menu s1)\<rparr>)"

text \<open>
  \<open>self.page_count = max(len(self.pages) - 1, 0)\<close> and
  \<open>self.current_page = current_page if current_page <= self.page_count else 0\<close>.
\<close>

definition update_current_page :: "update_args \<Rightarrow> paginator \<Rightarrow> paginator" where
  "update_current_page a s =
     (let s1 = set_page_count s
      in s1\<lparr>current_page := (if u_current_page a \<le> page_count s1 then u_current_page a else 0)\<rparr>)"

text \<open>
  The configuration assignments of \<open>update\<close>, in the order of the source. The test
  for \<open>custom_view\<close> is \<open>is not None\<close>, the tests for \<open>timeout\<close>, \<open>users\<close> and
  \<open>custom_buttons\<close> are \<open>is not discord.MISSING\<close>.
\<close>

definition opt_set :: "'a option \<Rightarrow> ('a \<Rightarrow> paginator \<Rightarrow> paginator) \<Rightarrow> paginator \<Rightarrow> paginator" where
  "opt_set x f s = (case x of None \<Rightarrow> s | Some v \<Rightarrow> f v s)"

definition missing_set :: "'a missing \<Rightarrow> ('a \<Rightarrow> paginator \<Rightarrow> paginator) \<Rightarrow> paginator \<Rightarrow> paginator" where
  "missing_set x f s = (case x of MISSING \<Rightarrow> s | Given v \<Rightarrow> f v s)"

definition update_config :: "update_args \<Rightarrow> paginator \<Rightarrow> paginator" where
  "update_config a s =
     (let s1 = opt_set (u_show_disabled a) (\<lambda>v s. s\<lparr>show_disabled := v\<rparr>) s;
          s2 = opt_set (u_show_indicator a) (\<lambda>v s. s\<lparr>show_indicator := v\<rparr>) s1;
          s3 = opt_set (u_author_check a) (\<lambda>v s. s\<lparr>usercheck := v\<rparr>) s2;
          s4 = opt_set (u_menu_placeholder a) (\<lambda>v s. s\<lparr>menu_placeholder := v\<rparr>) s3;
          s5 = opt_set (u_disable_on_timeout a) (\<lambda>v s. s\<lparr>disable_on_timeout := v\<rparr>) s4;
          s6 = opt_set (u_use_default_buttons a) (\<lambda>v s. s\<lparr>use_default_buttons := v\<rparr>) s5;
          s7 = opt_set (u_default_button_row a) (\<lambda>v s. s\<lparr>default_button_row := v\<rparr>) s6;
          s8 = opt_set (u_loop_pages a) (\<lambda>v s. s\<lparr>loop_pages := v\<rparr>) s7;
          s9 = (if u_custom_view a \<noteq> Given None then s8\<lparr>custom_view := u_custom_view a\<rparr> else s8);
          s10 = missing_set (u_timeout a) (\<lambda>v s. s\<lparr>timeout := v\<rparr>) s9;
          s11 = opt_set (u_trigger_on_display a) (\<lambda>v s. s\<lparr>trigger_on_display := Some v\<rparr>) s10;
          s12 = missing_set (u_users a) (\<lambda>v s. s\<lparr>users := v\<rparr>) s11
      in missing_set (u_custom_buttons a) (\<lambda>v s. s\<lparr>custom_buttons := v\<rparr>) s12)"

text \<open>
  \<open>if self.use_default_buttons == True: ... else: if self.custom_buttons is not None: ...\<close>
\<close>

definition update_registry :: "paginator \<Rightarrow> paginator" where
  "update_registry s =
     (if use_default_buttons s then add_default_buttons (s\<lparr>buttons := []\<rparr>)
      else (case custom_buttons s of
              Some bs \<Rightarrow> add_buttons bs (s\<lparr>buttons := []\<rparr>)
            | None \<Rightarrow> s))"

text \<open>\<open>Paginator.update\<close>\<close>

definition update :: "update_args \<Rightarrow> host \<Rightarrow> unit action" where
  "update a h =
     and_then (modify (update_pages_attr a)) (\<lambda>_.
     and_then (case u_pages a of
                 None \<Rightarrow> return ()
               | Some ps \<Rightarrow> classify_pages ps (u_show_menu a = Some True)) (\<lambda>_.
     and_then (modify (update_current_page a)) (\<lambda>_.
     and_then (modify (update_config a)) (\<lambda>_.
     and_then (modify update_registry) (\<lambda>_.
     and_then (gets current_page) (\<lambda>n.
     goto_page n (u_interaction a) h))))))"

subsection \<open>Vocabulary of the proofs\<close>

text \<open>
  \<open>keeps f m\<close>: the method m leaves \<open>f\<close> of the paginator as it was, whatever
  its outcome. \<open>raises_only P m\<close>: every exception m raises satisfies P.
  \<open>frame\<close>: the paginator without what a render rewrites (the button objects, the
  view's children and the menu).
\<close>

definition keeps :: "(paginator \<Rightarrow> 'f) \<Rightarrow> 'a action \<Rightarrow> bool" where
  "keeps f m = (\<forall>s. f (snd (m s)) = f s)"

definition raises_only :: "(error \<Rightarrow> bool) \<Rightarrow> 'a action \<Rightarrow> bool" where
  "raises_only P m = (\<forall>s e. fst (m s) = Inl e \<longrightarrow> P e)"

definition frame :: "paginator \<Rightarrow> paginator" where
  "frame s = s\<lparr>button_objs := no_objs, children := [], menu := None\<rparr>"

text \<open>
  \<open>registry_frame\<close>: the paginator without what a rebuild of the registry rewrites.
  \<open>reconfigure\<close>: the assignments of \<open>update\<close> between the page list and the render.
\<close>

definition registry_frame :: "paginator \<Rightarrow> paginator" where
  "registry_frame s = s\<lparr>button_objs := no_objs, next_ref := 0, buttons := []\<rparr>"

definition reconfigure :: "update_args \<Rightarrow> paginator \<Rightarrow> paginator" where
  "reconfigure a s = update_registry (update_config a (update_current_page a s))"

text \<open>
  Page lists: an element that is a PageGroup, and one that is a PageGroup flagged
  default. \<open>validate_pages\<close>: the part of \<open>update\<close> that checks the page list given,
  after the first two assignments. \<open>validation_frame\<close>: the paginator without the
  four attributes assigned up to the end of that part.
\<close>

fun is_PageGroup :: "pyval \<Rightarrow> bool" where
  "is_PageGroup (GroupV g) = True"
| "is_PageGroup x = False"

fun is_default :: "pyval \<Rightarrow> bool" where
  "is_default (GroupV g) = default_flag g"
| "is_default x = False"

definition validate_pages :: "update_args \<Rightarrow> unit action" where
  "validate_pages a =
     (case u_pages a of
        None \<Rightarrow> return ()
      | Some ps \<Rightarrow> classify_pages ps (u_show_menu a = Some True))"

definition validation_frame :: "paginator \<Rightarrow> paginator" where
  "validation_frame s =
     s\<lparr>pages := [], show_menu := False, page_groups := None, default_page_group := 0\<rparr>"

text \<open>An attribute that only \<open>update_config\<close> can change.\<close>

definition config_attr :: "(paginator \<Rightarrow> 'x) \<Rightarrow> bool" where
  "config_attr f =
     ((\<forall>s. f (frame s) = f s) \<and> (\<forall>s. f (registry_frame s) = f s) \<and>
      (\<forall>s. f (validation_frame s) = f s) \<and>
      (\<forall>s n. f (s\<lparr>current_page := n\<rparr>) = f s) \<and> (\<forall>s n. f (s\<lparr>page_count := n\<rparr>) = f s))"

text \<open>The exceptions a render raises by itself, the host apart.\<close>

fun render_error :: "error \<Rightarrow> bool" where
  "render_error (KeyError t) = True"
| "render_error IndexError = True"
| "render_error TypeError_list_items = True"
| "render_error TypeError_page_content = True"
| "render_error e = False"

text \<open>The current page lies within \<open>[0, page_count]\<close>.\<close>

definition in_range :: "paginator \<Rightarrow> bool" where
  "in_range s = (0 \<le> current_page s \<and> current_page s \<le> page_count s)"

subsection \<open>Example paginators\<close>

text \<open>
  \<open>Paginator(["a", "b", "c", "d", "e"])\<close> with every other parameter at its default
  (so \<open>page_count\<close> is 4), and the same after
  \<open>respond(interaction)\<close> to which the host returned a message.
\<close>

definition example_paginator :: paginator where
  "example_paginator =
     (case Paginator_init no_objs 0
             (init_defaults [StrV ''a'', StrV ''b'', StrV ''c'', StrV ''d'', StrV ''e'']) of
        Inr s \<Rightarrow> s
      | Inl e \<Rightarrow> init_state no_objs 0 (init_defaults []))"

definition example_sent :: paginator where
  "example_sent = snd (respond False (Inr (MessageR (Message 1))) example_paginator)"

text \<open>
  Page lists of PageGroups: two groups both flagged default, one group that is not
  flagged, and one group that is.
\<close>

definition two_defaults :: "pyval list" where
  "two_defaults =
     [GroupV (PageGroup ''one'' [StrV ''a''] True), GroupV (PageGroup ''two'' [StrV ''b''] True)]"

definition one_plain_group :: "pyval list" where
  "one_plain_group = [GroupV (PageGroup ''one'' [StrV ''a''] False)]"

definition one_default_group :: "pyval list" where
  "one_default_group = [GroupV (PageGroup ''one'' [StrV ''a''] True)]"

text \<open>
  \<open>Paginator(["a", "b"], custom_view=v)\<close> for a view v with one item, after
  \<open>respond(interaction)\<close> to which the host returned a message.
\<close>

definition example_with_view :: paginator where
  "example_with_view =
     snd (respond False (Inr (MessageR (Message 1)))
            (case Paginator_init no_objs 0
                    ((init_defaults [StrV ''a'', StrV ''b''])\<lparr>i_custom_view := Some (View [7])\<rparr>) of
               Inr s \<Rightarrow> s
             | Inl e \<Rightarrow> init_state no_objs 0 (init_defaults [])))"

section \<open>Theorems\<close>

subsection \<open>Evaluation\<close>

lemmas mdefs = return_def raise_def and_then_def modify_def lift_def gets_def host_call_def
  host_result_def

lemmas init_simps = Paginator_init_def mdefs classify_pages_def init_defaults_def
  init_state_def set_page_count_def init_buttons_def add_default_buttons_def
  default_buttons_def new_button_def add_button_def set_obj_def PaginatorButton_def
  indicator_label_def str_int_def str_nat.simps digit_char_def Let_def add_menu_def

lemmas render_simps = prepare_def update_buttons_def buttons_getitem_def
  update_next_button_def update_prev_button_def clear_items_def render_button_def
  add_item_def add_own_custom_view_def update_custom_view_def getitem_def Page_def
  current_page_item_def add_items_def remove_items_def remove_item_def

lemmas update_simps = update_def update_pages_attr_def update_current_page_def
  update_config_def opt_set_def missing_set_def update_registry_def update_defaults_def
  goto_page_def unpack_self_def message_attr_def host_ok_def page_action_def

lemma example_init:
  "Paginator_init no_objs 0
     (init_defaults [StrV ''a'', StrV ''b'', StrV ''c'', StrV ''d'', StrV ''e'']) =
   Inr example_paginator"
  by (simp add: example_paginator_def init_simps)

lemma example_sent_eval:
  "\<exists>s. example_sent = s \<and> current_page s = 0 \<and> page_count s = 4 \<and>
       message s = Some (Message 1) \<and> loop_pages s = False \<and>
       pages s = [StrV ''a'', StrV ''b'', StrV ''c'', StrV ''d'', StrV ''e'']"
  by (simp add: example_sent_def example_paginator_def init_simps respond_def render_simps)

lemma example_sent_fields:
  "current_page example_sent = 0" "page_count example_sent = 4"
  "message example_sent = Some (Message 1)" "loop_pages example_sent = False"
  "pages example_sent = [StrV ''a'', StrV ''b'', StrV ''c'', StrV ''d'', StrV ''e'']"
  using example_sent_eval by auto

subsection \<open>What a method keeps and what it raises\<close>

lemma keepsD: "keeps f m \<Longrightarrow> f (snd (m s)) = f s"
  by (simp add: keeps_def)

lemma keeps_return: "keeps f (return x)"
  by (simp add: keeps_def return_def)

lemma keeps_raise: "keeps f (raise e)"
  by (simp add: keeps_def raise_def)

lemma keeps_lift: "keeps f (lift r)"
  by (simp add: keeps_def lift_def)

lemma keeps_host_call: "keeps f (host_call r)"
  by (cases r) (simp_all add: host_call_def keeps_return keeps_raise)

lemma keeps_host_result: "keeps f (host_result r)"
  by (cases r) (simp_all add: host_result_def keeps_return keeps_raise)

lemma keeps_modify: "(\<And>s. f (g s) = f s) \<Longrightarrow> keeps f (modify g)"
  by (simp add: keeps_def modify_def)

lemma keeps_and_then:
  assumes "keeps f m" and "\<And>x. keeps f (k x)"
  shows "keeps f (and_then m k)"
proof -
  have "f (snd (and_then m k s)) = f s" for s
  proof (cases "m s")
    case (Pair r s')
    have s': "f s' = f s"
      using assms(1) Pair by (metis keepsD snd_conv)
    show ?thesis
    proof (cases r)
      case (Inl e)
      with Pair s' show ?thesis by (simp add: and_then_def)
    next
      case (Inr x)
      with Pair s' assms(2)[of x] show ?thesis by (simp add: and_then_def keeps_def)
    qed
  qed
  then show ?thesis by (simp add: keeps_def)
qed

lemma keeps_gets: "keeps f (gets g)"
  by (simp add: keeps_def gets_def)

lemma raises_only_return: "raises_only P (return x)"
  by (simp add: raises_only_def return_def)

lemma raises_only_raise: "P e \<Longrightarrow> raises_only P (raise e)"
  by (simp add: raises_only_def raise_def)

lemma raises_only_modify: "raises_only P (modify g)"
  by (simp add: raises_only_def modify_def)

lemma raises_only_lift: "(\<And>e. r = Inl e \<Longrightarrow> P e) \<Longrightarrow> raises_only P (lift r)"
  by (simp add: raises_only_def lift_def)

lemma raises_only_and_then:
  assumes "raises_only P m" and "\<And>x. raises_only P (k x)"
  shows "raises_only P (and_then m k)"
proof -
  have "P e" if "fst (and_then m k s) = Inl e" for s e
  proof (cases "m s")
    case (Pair r s')
    show ?thesis
    proof (cases r)
      case (Inl e')
      with Pair that have "e' = e" by (simp add: and_then_def)
      with Pair Inl assms(1) show ?thesis by (auto simp: raises_only_def dest!: spec[of _ s])
    next
      case (Inr x)
      with Pair that have "fst (k x s') = Inl e" by (simp add: and_then_def)
      with assms(2)[of x] show ?thesis by (auto simp: raises_only_def)
    qed
  qed
  then show ?thesis by (auto simp: raises_only_def)
qed

lemma raises_only_gets: "raises_only P (gets g)"
  by (simp add: raises_only_def gets_def)

lemma frame_set_obj: "frame (set_obj r g s) = frame s"
  by (simp add: frame_def set_obj_def)

lemma frame_add_item: "frame (add_item i s) = frame s"
  by (simp add: frame_def add_item_def)

lemma frame_remove_item: "frame (remove_item i s) = frame s"
  by (simp add: frame_def remove_item_def)

lemma frame_clear_items: "frame (clear_items s) = frame s"
  by (simp add: frame_def clear_items_def)

lemma frame_fold: "(\<And>x s. frame (g x s) = frame s) \<Longrightarrow> frame (fold g xs s) = frame s"
  by (induction xs arbitrary: s) simp_all

lemma frame_update_custom_view: "frame (update_custom_view v s) = frame s"
  by (simp add: update_custom_view_def add_items_def remove_items_def frame_fold
      frame_add_item frame_remove_item Let_def split: missing.splits option.splits)

lemma frame_add_own_custom_view: "frame (add_own_custom_view s) = frame s"
  by (simp add: add_own_custom_view_def frame_update_custom_view split: missing.splits option.splits)

lemma frame_add_menu: "frame (add_menu s) = frame s"
  by (simp add: add_menu_def Let_def frame_add_item) (simp add: frame_def)

lemma frame_render_button: "frame (render_button kb s) = frame s"
  by (cases kb) (simp add: render_button_def Let_def frame_add_item frame_set_obj)

lemma frame_update_next_button: "frame (update_next_button r s) = frame s"
  by (simp add: update_next_button_def frame_set_obj)

lemma frame_update_prev_button: "frame (update_prev_button r s) = frame s"
  by (simp add: update_prev_button_def frame_set_obj)

lemma keeps_buttons_getitem: "keeps f (buttons_getitem t)"
  by (simp add: keeps_def buttons_getitem_def split: option.splits)

lemma keeps_update_buttons: "keeps frame update_buttons"
  unfolding update_buttons_def
  by (intro keeps_and_then keeps_buttons_getitem keeps_modify keeps_gets keeps_return)
     (simp_all add: frame_set_obj frame_update_next_button frame_update_prev_button
        frame_clear_items frame_fold frame_render_button frame_add_menu
        frame_add_own_custom_view keeps_and_then keeps_buttons_getitem keeps_modify keeps_return)

lemma keeps_current_page_item: "keeps f current_page_item"
  unfolding current_page_item_def by (intro keeps_and_then keeps_gets keeps_lift)

lemma keeps_prepare: "keeps frame (prepare uf)"
  unfolding prepare_def
  by (intro keeps_and_then keeps_update_buttons keeps_modify keeps_current_page_item keeps_return keeps_lift)
     (simp_all add: frame_update_custom_view split: option.splits)

lemma keeps_unpack_self: "keeps frame unpack_self"
  unfolding unpack_self_def
  by (intro keeps_and_then keeps_prepare keeps_return)

lemma keeps_message_attr: "keeps f message_attr"
  unfolding message_attr_def
  by (intro keeps_and_then keeps_gets) (simp add: keeps_raise keeps_return split: option.splits)

lemma keeps_page_action: "keeps f (page_action h)"
  unfolding page_action_def
  by (intro keeps_and_then keeps_current_page_item keeps_lift)
     (simp_all add: keeps_and_then keeps_current_page_item keeps_lift keeps_host_call keeps_return)

lemma keeps_send_edit: "keeps frame (case i of
                 Some i \<Rightarrow>
                   and_then (host_call (defer_raises h)) (\<lambda>_.
                   and_then message_attr (\<lambda>_.
                   and_then unpack_self (\<lambda>_.
                   host_call (edit_raises h))))
               | None \<Rightarrow>
                   and_then message_attr (\<lambda>_.
                   and_then unpack_self (\<lambda>_.
                   host_call (edit_raises h))))"
  by (cases i) (simp_all add: keeps_and_then keeps_host_call keeps_message_attr keeps_unpack_self)

lemma goto_page_frame: "frame (snd (goto_page n i h s)) = frame (s\<lparr>current_page := n\<rparr>)"
proof -
  let ?rest = "and_then (prepare True) (\<lambda>_.
     and_then (case i of
                 Some i \<Rightarrow>
                   and_then (host_call (defer_raises h)) (\<lambda>_.
                   and_then message_attr (\<lambda>_.
                   and_then unpack_self (\<lambda>_.
                   host_call (edit_raises h))))
               | None \<Rightarrow>
                   and_then message_attr (\<lambda>_.
                   and_then unpack_self (\<lambda>_.
                   host_call (edit_raises h)))) (\<lambda>_.
     and_then (gets trigger_on_display) (\<lambda>trigger.
     if trigger = Some True then page_action h else return ())))"
  have k: "keeps frame ?rest"
    by (intro keeps_and_then keeps_prepare keeps_send_edit keeps_gets)
       (simp add: keeps_page_action keeps_return)
  have "goto_page n i h s = ?rest (s\<lparr>current_page := n\<rparr>)"
    by (simp add: goto_page_def and_then_def modify_def)
  then show ?thesis using keepsD[OF k] by simp
qed

lemma raises_only_mono: "raises_only P m \<Longrightarrow> (\<And>e. P e \<Longrightarrow> Q e) \<Longrightarrow> raises_only Q m"
  by (auto simp: raises_only_def)

lemma raises_only_host_call: "(\<And>n. P (HostError n)) \<Longrightarrow> raises_only P (host_call r)"
  by (cases r) (simp_all add: host_call_def raises_only_return raises_only_raise)

lemma raises_only_host_result: "(\<And>n. P (HostError n)) \<Longrightarrow> raises_only P (host_result r)"
  by (cases r) (simp_all add: host_result_def raises_only_return raises_only_raise)

lemma raises_only_buttons_getitem: "P (KeyError t) \<Longrightarrow> raises_only P (buttons_getitem t)"
  by (auto simp: raises_only_def buttons_getitem_def split: option.splits)

lemma getitem_error: "getitem xs i = Inl e \<Longrightarrow> e = IndexError"
  by (auto simp: getitem_def Let_def split: if_splits)

lemma get_page_content_error:
  "get_page_content v = Inl e \<Longrightarrow> e = TypeError_list_items \<or> e = TypeError_page_content"
  by (cases v) (auto split: if_splits)

lemma raises_only_update_buttons: "raises_only render_error update_buttons"
  unfolding update_buttons_def
  by (intro raises_only_and_then raises_only_buttons_getitem raises_only_modify raises_only_gets)
     (simp_all add: raises_only_and_then raises_only_buttons_getitem raises_only_modify
        raises_only_return)

lemma raises_only_current_page_item: "raises_only render_error current_page_item"
  by (auto simp: raises_only_def current_page_item_def mdefs dest: getitem_error)

lemma raises_only_prepare: "raises_only render_error (prepare uf)"
  unfolding prepare_def
  by (intro raises_only_and_then raises_only_update_buttons raises_only_current_page_item
        raises_only_modify raises_only_return raises_only_lift)
     (auto dest: get_page_content_error)

subsection \<open>Page normalization\<close>

text \<open>
  Claim C10. Page normalization of an empty list returns a Page with no content, an
  empty embeds sequence and an empty files sequence, and does not raise the
  mixed-content error: the test that all items are embeds holds of the empty list.
\<close>

theorem get_page_content_empty_list:
  "list_all is_Embed [] \<and>
   get_page_content (ListV []) =
     Inr \<lparr>content = None, embeds = [], files = [], page_custom_view = None, callback = None\<rparr> \<and>
   get_page_content (ListV []) \<noteq> Inl TypeError_list_items"
  by (simp add: Page_def)

subsection \<open>The author check\<close>

text \<open>
  Claim C9. If the author check is enabled and the set of authorized users was never
  supplied (\<open>users\<close> is \<open>None\<close>), \<open>interaction_check\<close> raises (the membership test on
  \<open>None\<close> is a TypeError) for every interaction; it does not return false.
\<close>

theorem interaction_check_users_None:
  "usercheck s \<Longrightarrow> users s = None \<Longrightarrow> interaction_check i s = Inl TypeError_not_iterable"
  by (simp add: interaction_check_def)

theorem interaction_check_users_None_witness:
  "\<exists>s. Paginator_init no_objs 0 ((init_defaults [StrV ''a''])\<lparr>i_author_check := True\<rparr>) = Inr s \<and>
       usercheck s \<and> users s = None \<and>
       interaction_check (Interaction 7) s = Inl TypeError_not_iterable \<and>
       interaction_check (Interaction 7) s \<noteq> Inr False"
proof -
  have "\<exists>s. Paginator_init no_objs 0 ((init_defaults [StrV ''a''])\<lparr>i_author_check := True\<rparr>) = Inr s \<and>
       usercheck s \<and> users s = None"
    by (simp add: init_simps)
  then obtain s where s: "Paginator_init no_objs 0 ((init_defaults [StrV ''a''])\<lparr>i_author_check := True\<rparr>) = Inr s"
    "usercheck s" "users s = None" by blast
  from interaction_check_users_None[OF s(2,3), of "Interaction 7"] s show ?thesis by simp
qed

subsection \<open>Removing a button\<close>

text \<open>
  Claim C5. For a button type that is not in the registry, \<open>remove_button\<close> raises
  (the ValueError "no button_type ... was found in this paginator", the LookupError
  of the specification) and changes nothing; for a type that is in the registry, it
  returns the button registered under that type and removes the entry, leaving the
  other entries as they were.
\<close>

theorem remove_button_spec:
  "(t \<notin> fst ` set (buttons s) \<longrightarrow>
      remove_button t s = (Inl (ValueError_no_button_type t), s)) \<and>
   (t \<in> fst ` set (buttons s) \<longrightarrow>
      (\<exists>r. map_of (buttons s) t = Some r \<and>
           remove_button t s = (Inr r, s\<lparr>buttons := AList.delete t (buttons s)\<rparr>) \<and>
           t \<notin> fst ` set (buttons (snd (remove_button t s))) \<and>
           (\<forall>t'. t' \<noteq> t \<longrightarrow>
              map_of (buttons (snd (remove_button t s))) t' = map_of (buttons s) t')))"
proof (intro conjI impI)
  assume "t \<notin> fst ` set (buttons s)"
  then have "map_of (buttons s) t = None" by (simp add: map_of_eq_None_iff)
  then show "remove_button t s = (Inl (ValueError_no_button_type t), s)"
    by (simp add: remove_button_def)
next
  assume "t \<in> fst ` set (buttons s)"
  then obtain r where r: "map_of (buttons s) t = Some r"
    by (metis map_of_eq_None_iff not_Some_eq)
  then have e: "remove_button t s = (Inr r, s\<lparr>buttons := AList.delete t (buttons s)\<rparr>)"
    by (simp add: remove_button_def)
  have "t \<notin> fst ` set (AList.delete t (buttons s))"
    by (simp add: delete_notin_dom)
  moreover have "\<forall>t'. t' \<noteq> t \<longrightarrow> map_of (AList.delete t (buttons s)) t' = map_of (buttons s) t'"
    by (simp add: delete_conv)
  ultimately show "\<exists>r. map_of (buttons s) t = Some r \<and>
           remove_button t s = (Inr r, s\<lparr>buttons := AList.delete t (buttons s)\<rparr>) \<and>
           t \<notin> fst ` set (buttons (snd (remove_button t s))) \<and>
           (\<forall>t'. t' \<noteq> t \<longrightarrow>
              map_of (buttons (snd (remove_button t s))) t' = map_of (buttons s) t')"
    using r e by simp
qed

lemma example_paginator_buttons:
  "buttons example_paginator = [(First, 0), (Prev, 1), (Page_indicator, 2), (Next, 3), (Last, 4)]"
  by (simp add: example_paginator_def init_simps)

theorem remove_button_spec_witness:
  "Custom \<notin> fst ` set (buttons example_paginator) \<and>
   remove_button Custom example_paginator = (Inl (ValueError_no_button_type Custom), example_paginator) \<and>
   Next \<in> fst ` set (buttons example_paginator) \<and>
   fst (remove_button Next example_paginator) = Inr 3 \<and>
   buttons (snd (remove_button Next example_paginator)) =
     [(First, 0), (Prev, 1), (Page_indicator, 2), (Last, 4)]"
  using remove_button_spec[of Custom example_paginator] remove_button_spec[of Next example_paginator]
  by (auto simp: example_paginator_buttons)

subsection \<open>The empty page list\<close>

text \<open>
  Claim C8. Constructing a paginator with an empty page list raises: the loop finds
  no element that is not a PageGroup, so the list counts as a list of groups, and the
  index lookup of the default group (which is \<open>None\<close>) fails with \<open>list.index\<close>'s
  ValueError. This holds whatever the other parameters are.
\<close>

theorem init_empty_page_list:
  "scan_page_groups [] None = Inr (True, None) \<and>
   Paginator_init objs free (a\<lparr>i_pages := []\<rparr>) = Inl ValueError_not_in_list"
  by (simp add: Paginator_init_def classify_pages_def select_page_group_def init_state_def mdefs)

subsection \<open>Ephemeral responses\<close>

text \<open>
  Claim C7. \<open>respond\<close> raises the ephemeral-timeout ValueError (the ValidationError of
  the specification) if and only if \<open>ephemeral\<close> is true and the paginator's timeout is
  \<open>None\<close> or at least 900 seconds. A timeout is a real number here: the comparison
  with 900 is the one of the float it stands for.
\<close>

theorem respond_ephemeral:
  "fst (respond ephemeral hr s) = Inl ValueError_ephemeral \<longleftrightarrow>
     ephemeral \<and> (timeout s = None \<or> (\<exists>t. timeout s = Some t \<and> 900 \<le> t))"
proof (cases "ephemeral \<and> (case timeout s of None \<Rightarrow> True | Some t \<Rightarrow> t \<ge> 900)")
  case True
  then have "fst (respond ephemeral hr s) = Inl ValueError_ephemeral"
    by (simp add: respond_def mdefs)
  with True show ?thesis by (auto split: option.splits)
next
  case False
  let ?rest = "and_then (prepare False) (\<lambda>page.
     and_then (host_result hr) (\<lambda>msg.
     and_then (case msg of
                 MessageR m \<Rightarrow> modify (\<lambda>s. s\<lparr>message := Some m\<rparr>)
               | InteractionR orig \<Rightarrow>
                   and_then (host_result orig) (\<lambda>m. modify (\<lambda>s. s\<lparr>message := Some m\<rparr>))
               | OtherR \<Rightarrow> return ()) (\<lambda>_.
     gets message)))"
  have p: "raises_only (\<lambda>e. e \<noteq> ValueError_ephemeral) (prepare False)"
    by (rule raises_only_mono[OF raises_only_prepare]) auto
  have "raises_only (\<lambda>e. e \<noteq> ValueError_ephemeral) ?rest"
    by (intro raises_only_and_then p raises_only_host_result raises_only_gets)
       (auto simp: raises_only_modify raises_only_return raises_only_and_then
          raises_only_host_result split: response.splits)
  moreover from False have "respond ephemeral hr s = ?rest s"
    by (auto simp: respond_def and_then_def gets_def return_def)
  ultimately have "fst (respond ephemeral hr s) \<noteq> Inl ValueError_ephemeral"
    by (auto simp: raises_only_def)
  with False show ?thesis by (auto split: option.splits)
qed

theorem respond_ephemeral_witness:
  "(\<exists>s. Paginator_init no_objs 0 ((init_defaults [StrV ''a''])\<lparr>i_timeout := None\<rparr>) = Inr s \<and>
        fst (respond True (Inr (MessageR (Message 1))) s) = Inl ValueError_ephemeral) \<and>
   (\<exists>s. Paginator_init no_objs 0 ((init_defaults [StrV ''a''])\<lparr>i_timeout := Some 900\<rparr>) = Inr s \<and>
        fst (respond True (Inr (MessageR (Message 1))) s) = Inl ValueError_ephemeral) \<and>
   (\<exists>s. Paginator_init no_objs 0 ((init_defaults [StrV ''a''])\<lparr>i_timeout := Some 600\<rparr>) = Inr s \<and>
        fst (respond True (Inr (MessageR (Message 1))) s) \<noteq> Inl ValueError_ephemeral) \<and>
   (\<exists>s. Paginator_init no_objs 0 ((init_defaults [StrV ''a''])\<lparr>i_timeout := None\<rparr>) = Inr s \<and>
        fst (respond False (Inr (MessageR (Message 1))) s) \<noteq> Inl ValueError_ephemeral)"
proof -
  have t: "\<exists>s. Paginator_init no_objs 0 ((init_defaults [StrV ''a''])\<lparr>i_timeout := x\<rparr>) = Inr s \<and> timeout s = x" for x
    by (simp add: init_simps)
  show ?thesis
    using t[of None] t[of "Some 900"] t[of "Some 600"]
    by (auto simp: respond_ephemeral)
qed

subsection \<open>The range of the current page\<close>

lemma rf_set_obj: "registry_frame (set_obj r g s) = registry_frame s"
  by (simp add: registry_frame_def set_obj_def)

lemma rf_buttons_update: "registry_frame (s\<lparr>buttons := x\<rparr>) = registry_frame s"
  by (simp add: registry_frame_def)

lemma rf_add_button: "registry_frame (add_button r s) = registry_frame s"
  by (simp add: add_button_def Let_def rf_buttons_update rf_set_obj)

lemma rf_add_buttons: "registry_frame (add_buttons rs s) = registry_frame s"
  by (induction rs arbitrary: s) (simp_all add: rf_add_button)

lemma rf_new_buttons: "registry_frame (snd (new_buttons bs s)) = registry_frame s"
proof (induction bs arbitrary: s)
  case Nil
  show ?case by simp
next
  case (Cons b bs)
  have "registry_frame (snd (new_button b s)) = registry_frame s"
    by (simp add: new_button_def registry_frame_def)
  with Cons[of "snd (new_button b s)"] show ?case
    by (simp add: split_beta)
qed

lemma rf_add_default_buttons: "registry_frame (add_default_buttons s) = registry_frame s"
  using rf_new_buttons[of "default_buttons (default_button_row s)" s]
  by (simp add: add_default_buttons_def split_beta rf_add_buttons)

lemma rf_init_buttons: "registry_frame (init_buttons s) = registry_frame s"
  by (simp add: init_buttons_def rf_add_buttons rf_add_default_buttons split: option.splits)

lemma rf_update_registry: "registry_frame (update_registry s) = registry_frame s"
  by (simp add: update_registry_def rf_add_buttons rf_add_default_buttons rf_buttons_update
      split: option.splits)

lemma rf_fields:
  "current_page (registry_frame s) = current_page s"
  "page_count (registry_frame s) = page_count s"
  "pages (registry_frame s) = pages s"
  "custom_view (registry_frame s) = custom_view s"
  "timeout (registry_frame s) = timeout s"
  "users (registry_frame s) = users s"
  "custom_buttons (registry_frame s) = custom_buttons s"
  "show_menu (registry_frame s) = show_menu s"
  by (simp_all add: registry_frame_def)

lemma frame_fields:
  "current_page (frame s) = current_page s"
  "page_count (frame s) = page_count s"
  "pages (frame s) = pages s"
  "custom_view (frame s) = custom_view s"
  "timeout (frame s) = timeout s"
  "users (frame s) = users s"
  "custom_buttons (frame s) = custom_buttons s"
  "buttons (frame s) = buttons s"
  "loop_pages (frame s) = loop_pages s"
  by (simp_all add: frame_def)

lemma init_buttons_nav:
  "current_page (init_buttons s) = current_page s"
  "page_count (init_buttons s) = page_count s"
  "pages (init_buttons s) = pages s"
  using rf_init_buttons[of s] rf_fields by metis+

lemma update_registry_nav:
  "current_page (update_registry s) = current_page s"
  "page_count (update_registry s) = page_count s"
  "pages (update_registry s) = pages s"
  using rf_update_registry[of s] rf_fields by metis+

lemma goto_page_nav:
  "current_page (snd (goto_page n i h s)) = n"
  "page_count (snd (goto_page n i h s)) = page_count s"
  "pages (snd (goto_page n i h s)) = pages s"
proof -
  have f: "frame (snd (goto_page n i h s)) = frame (s\<lparr>current_page := n\<rparr>)"
    by (rule goto_page_frame)
  have "current_page (frame (snd (goto_page n i h s))) = n"
    by (simp add: f frame_fields)
  then show "current_page (snd (goto_page n i h s)) = n" by (simp add: frame_fields)
  have "page_count (frame (snd (goto_page n i h s))) = page_count s"
    by (simp add: f frame_fields)
  then show "page_count (snd (goto_page n i h s)) = page_count s" by (simp add: frame_fields)
  have "pages (frame (snd (goto_page n i h s))) = pages s"
    by (simp add: f frame_fields)
  then show "pages (snd (goto_page n i h s)) = pages s" by (simp add: frame_fields)
qed

lemma keeps_select_page_group:
  "keeps (\<lambda>s. (current_page s, page_count s)) (select_page_group b dg)"
  unfolding select_page_group_def
  by (intro keeps_and_then keeps_modify keeps_gets)
     (simp_all add: keeps_raise keeps_lift keeps_and_then keeps_modify split: option.splits prod.splits)

lemma keeps_classify_pages:
  "keeps (\<lambda>s. (current_page s, page_count s)) (classify_pages ps b)"
  unfolding classify_pages_def
  by (intro keeps_and_then keeps_lift)
     (simp add: keeps_select_page_group keeps_return split: prod.splits)

lemma classify_pages_nav:
  "current_page (snd (classify_pages ps b s)) = current_page s"
  "page_count (snd (classify_pages ps b s)) = page_count s"
  using keepsD[OF keeps_classify_pages, of ps b s] by simp_all

lemma opt_set_keep: "(\<And>v s. f (g v s) = f s) \<Longrightarrow> f (opt_set x g s) = f s"
  by (cases x) (simp_all add: opt_set_def)

lemma missing_set_keep: "(\<And>v s. f (g v s) = f s) \<Longrightarrow> f (missing_set x g s) = f s"
  by (cases x) (simp_all add: missing_set_def)

lemma update_config_nav:
  "current_page (update_config a s) = current_page s"
  "page_count (update_config a s) = page_count s"
  "pages (update_config a s) = pages s"
  by (simp_all add: update_config_def Let_def
        opt_set_keep[where f = current_page] missing_set_keep[where f = current_page]
        opt_set_keep[where f = page_count] missing_set_keep[where f = page_count]
        opt_set_keep[where f = pages] missing_set_keep[where f = pages])

lemma update_unfold:
  "update a h s =
     (case (case u_pages a of
              None \<Rightarrow> return ()
            | Some ps \<Rightarrow> classify_pages ps (u_show_menu a = Some True)) (update_pages_attr a s) of
        (Inl e, s2) \<Rightarrow> (Inl e, s2)
      | (Inr u, s2) \<Rightarrow>
          goto_page (current_page (reconfigure a s2)) (u_interaction a) h (reconfigure a s2))"
  by (simp add: update_def and_then_def modify_def gets_def reconfigure_def
      split: prod.splits sum.splits)

lemma reconfigure_nav:
  "page_count (reconfigure a s) = max (int (length (pages s)) - 1) 0"
  "current_page (reconfigure a s) =
     (if u_current_page a \<le> max (int (length (pages s)) - 1) 0 then u_current_page a else 0)"
  "pages (reconfigure a s) = pages s"
  by (simp_all add: reconfigure_def update_registry_nav update_config_nav
        update_current_page_def set_page_count_def Let_def)

lemma validation_nav:
  "current_page (snd ((case u_pages a of
              None \<Rightarrow> return ()
            | Some ps \<Rightarrow> classify_pages ps b) (update_pages_attr a s))) = current_page s"
  "page_count (snd ((case u_pages a of
              None \<Rightarrow> return ()
            | Some ps \<Rightarrow> classify_pages ps b) (update_pages_attr a s))) = page_count s"
  by (cases "u_pages a"; simp add: return_def classify_pages_nav update_pages_attr_def Let_def)+

lemma update_in_range:
  assumes "in_range s" and "0 \<le> u_current_page a"
  shows "in_range (snd (update a h s))"
proof -
  let ?v = "(case u_pages a of
              None \<Rightarrow> return ()
            | Some ps \<Rightarrow> classify_pages ps (u_show_menu a = Some True)) (update_pages_attr a s)"
  obtain r s2 where v: "?v = (r, s2)" by (cases ?v)
  have nav2: "current_page s2 = current_page s" "page_count s2 = page_count s"
    using validation_nav[where a = a and b = "u_show_menu a = Some True" and s = s] v by simp_all
  show ?thesis
  proof (cases r)
    case (Inl e)
    with v have "snd (update a h s) = s2" by (simp add: update_unfold)
    with nav2 assms(1) show ?thesis by (simp add: in_range_def)
  next
    case (Inr u)
    with v have "snd (update a h s) =
        snd (goto_page (current_page (reconfigure a s2)) (u_interaction a) h (reconfigure a s2))"
      by (simp add: update_unfold)
    then show ?thesis
      using assms(2) by (simp add: in_range_def goto_page_nav reconfigure_nav)
  qed
qed

lemma update_success_nav:
  assumes "fst (update a h s) = Inr ()"
  shows "page_count (snd (update a h s)) = max (int (length (pages (snd (update a h s)))) - 1) 0 \<and>
         current_page (snd (update a h s)) =
           (if u_current_page a \<le> page_count (snd (update a h s)) then u_current_page a else 0)"
proof -
  let ?v = "(case u_pages a of
              None \<Rightarrow> return ()
            | Some ps \<Rightarrow> classify_pages ps (u_show_menu a = Some True)) (update_pages_attr a s)"
  obtain r s2 where v: "?v = (r, s2)" by (cases ?v)
  show ?thesis
  proof (cases r)
    case (Inl e)
    with v assms show ?thesis by (simp add: update_unfold)
  next
    case (Inr u)
    with v have "snd (update a h s) =
        snd (goto_page (current_page (reconfigure a s2)) (u_interaction a) h (reconfigure a s2))"
      by (simp add: update_unfold)
    then show ?thesis
      by (simp add: goto_page_nav reconfigure_nav)
  qed
qed

lemma init_nav:
  assumes "Paginator_init objs free a = Inr s"
  shows "current_page s = 0 \<and> page_count s = max (int (length (pages s)) - 1) 0"
proof -
  let ?c = "classify_pages (i_pages a) (i_show_menu a) (init_state objs free a)"
  obtain r s1 where c: "?c = (r, s1)" by (cases ?c)
  have cp: "current_page s1 = 0"
    using classify_pages_nav(1)[of "i_pages a" "i_show_menu a" "init_state objs free a"] c
    by (simp add: init_state_def)
  show ?thesis
  proof (cases r)
    case (Inl e)
    with c assms show ?thesis by (simp add: Paginator_init_def and_then_def)
  next
    case (Inr u)
    with c assms have s: "s = (let s3 = init_buttons (set_page_count s1)
                               in if show_menu s3 then add_menu s3 else s3)"
      by (simp add: Paginator_init_def and_then_def modify_def Let_def)
    have m: "current_page (add_menu x) = current_page x" "page_count (add_menu x) = page_count x"
      "pages (add_menu x) = pages x" for x
      by (simp_all add: add_menu_def add_item_def Let_def)
    show ?thesis
      by (simp add: s Let_def m init_buttons_nav set_page_count_def cp)
  qed
qed

text \<open>
  Claim C1, as the code has it. After a construction that succeeds, \<open>current_page\<close>
  is 0 and \<open>page_count\<close> is \<open>max(len(pages) - 1, 0)\<close>, so the current page is in
  range. \<open>update\<close> keeps the current page in range whenever the page number asked for
  is not negative, whatever its outcome; when it returns, \<open>page_count\<close> is
  \<open>max(len(pages) - 1, 0)\<close> and \<open>current_page\<close> is the number asked for if that is at
  most \<open>page_count\<close>, and 0 otherwise. \<open>goto_page(n)\<close> assigns n without any check and
  leaves \<open>page_count\<close>, whatever its outcome: afterwards the current page is in range
  exactly when \<open>0 \<le> n \<le> page_count\<close>.
\<close>

theorem current_page_range:
  "(Paginator_init objs free a = Inr s0 \<longrightarrow>
      current_page s0 = 0 \<and> page_count s0 = max (int (length (pages s0)) - 1) 0 \<and> in_range s0) \<and>
   (in_range s \<and> 0 \<le> u_current_page ua \<longrightarrow> in_range (snd (update ua h s))) \<and>
   (fst (update ua h s) = Inr () \<longrightarrow>
      page_count (snd (update ua h s)) = max (int (length (pages (snd (update ua h s)))) - 1) 0 \<and>
      current_page (snd (update ua h s)) =
        (if u_current_page ua \<le> page_count (snd (update ua h s)) then u_current_page ua else 0)) \<and>
   current_page (snd (goto_page n i h s)) = n \<and>
   page_count (snd (goto_page n i h s)) = page_count s \<and>
   (in_range (snd (goto_page n i h s)) \<longleftrightarrow> 0 \<le> n \<and> n \<le> page_count s)"
proof (intro conjI impI)
  assume "Paginator_init objs free a = Inr s0"
  from init_nav[OF this]
  show "current_page s0 = 0" and "page_count s0 = max (int (length (pages s0)) - 1) 0"
    and "in_range s0"
    by (simp_all add: in_range_def)
next
  assume "in_range s \<and> 0 \<le> u_current_page ua"
  then show "in_range (snd (update ua h s))" by (simp add: update_in_range)
next
  assume "fst (update ua h s) = Inr ()"
  from update_success_nav[OF this]
  show "page_count (snd (update ua h s)) = max (int (length (pages (snd (update ua h s)))) - 1) 0"
    and "current_page (snd (update ua h s)) =
        (if u_current_page ua \<le> page_count (snd (update ua h s)) then u_current_page ua else 0)"
    by simp_all
next
  show "current_page (snd (goto_page n i h s)) = n"
    and "page_count (snd (goto_page n i h s)) = page_count s"
    and "in_range (snd (goto_page n i h s)) \<longleftrightarrow> 0 \<le> n \<and> n \<le> page_count s"
    by (simp_all add: in_range_def goto_page_nav)
qed

text \<open>
  Claim C1 as stated fails: on the five-page example, once sent, \<open>goto_page(-1)\<close>
  returns normally (\<open>pages[-1]\<close> is the last page) and leaves \<open>current_page = -1\<close>.
\<close>

theorem current_page_range_counterexample:
  "in_range example_sent \<and>
   fst (goto_page (- 1) None host_ok example_sent) = Inr () \<and>
   current_page (snd (goto_page (- 1) None host_ok example_sent)) = - 1 \<and>
   \<not> in_range (snd (goto_page (- 1) None host_ok example_sent))"
proof -
  have "\<exists>s'. goto_page (- 1) None host_ok example_sent = (Inr (), s') \<and> current_page s' = - 1"
    by (simp add: example_sent_def example_paginator_def init_simps respond_def
        render_simps update_simps)
  then show ?thesis
    by (auto simp: in_range_def example_sent_fields)
qed

theorem current_page_range_witness:
  "Paginator_init no_objs 0
     (init_defaults [StrV ''a'', StrV ''b'', StrV ''c'', StrV ''d'', StrV ''e'']) =
     Inr example_paginator \<and>
   current_page example_paginator = 0 \<and> page_count example_paginator = 4 \<and>
   in_range example_sent \<and>
   fst (update (update_defaults\<lparr>u_current_page := 2\<rparr>) host_ok example_sent) = Inr () \<and>
   current_page (snd (update (update_defaults\<lparr>u_current_page := 2\<rparr>) host_ok example_sent)) = 2 \<and>
   in_range (snd (update (update_defaults\<lparr>u_current_page := 2\<rparr>) host_ok example_sent)) \<and>
   current_page (snd (goto_page 3 None host_ok example_sent)) = 3 \<and>
   in_range (snd (goto_page 3 None host_ok example_sent))"
proof -
  have r: "in_range example_sent"
    by (simp add: in_range_def example_sent_fields)
  have "\<exists>s'. update (update_defaults\<lparr>u_current_page := 2\<rparr>) host_ok example_sent = (Inr (), s') \<and>
          page_count s' = 4"
    by (simp add: example_sent_def example_paginator_def init_simps respond_def
      render_simps update_simps)
  then have u: "fst (update (update_defaults\<lparr>u_current_page := 2\<rparr>) host_ok example_sent) = Inr ()"
    and pc: "page_count (snd (update (update_defaults\<lparr>u_current_page := 2\<rparr>) host_ok example_sent)) = 4"
    by auto
  have pl: "pages example_paginator = [StrV ''a'', StrV ''b'', StrV ''c'', StrV ''d'', StrV ''e'']"
    by (simp add: example_paginator_def init_simps)
  have c: "u_current_page (update_defaults\<lparr>u_current_page := 2\<rparr>) = 2" by simp
  show ?thesis
    using current_page_range[where objs = no_objs and free = 0
        and a = "init_defaults [StrV ''a'', StrV ''b'', StrV ''c'', StrV ''d'', StrV ''e'']"
        and ?s0.0 = example_paginator and s = example_sent
        and ua = "update_defaults\<lparr>u_current_page := 2\<rparr>" and h = host_ok
        and n = 3 and i = None]
      example_init r u pl c pc
    by (simp add: example_sent_fields)
qed

subsection \<open>An update that fails validation\<close>

lemma scan_second_default:
  "list_all is_PageGroup ps \<Longrightarrow> list_ex is_default ps \<Longrightarrow>
   scan_page_groups ps (Some g) = Inl ValueError_default_group"
proof (induction ps)
  case Nil
  then show ?case by simp
next
  case (Cons x ps)
  then show ?case by (cases x) auto
qed

lemma scan_two_defaults:
  "list_all is_PageGroup ps \<Longrightarrow> 2 \<le> length (filter is_default ps) \<Longrightarrow>
   scan_page_groups ps None = Inl ValueError_default_group"
proof (induction ps)
  case Nil
  then show ?case by simp
next
  case (Cons x ps)
  show ?case
  proof (cases x)
    case (GroupV g)
    show ?thesis
    proof (cases "default_flag g")
      case True
      with Cons.prems GroupV have "filter is_default ps \<noteq> []" by auto
      then have "list_ex is_default ps"
        by (metis filter_False list_ex_iff)
      with Cons.prems GroupV True show ?thesis
        by (simp add: scan_second_default)
    next
      case False
      with Cons GroupV show ?thesis by simp
    qed
  qed (use Cons.prems in simp_all)
qed

lemma scan_error: "scan_page_groups ps dg = Inl e \<Longrightarrow> e = ValueError_default_group"
proof (induction ps arbitrary: dg)
  case Nil
  then show ?case by simp
next
  case (Cons x ps)
  then show ?case by (cases x) (auto split: if_splits)
qed

lemma keeps_validate_pages: "keeps validation_frame (validate_pages a)"
proof -
  have sel: "keeps validation_frame (select_page_group b dg)" for b dg
    unfolding select_page_group_def
    by (intro keeps_and_then keeps_modify keeps_gets)
       (simp_all add: validation_frame_def keeps_raise keeps_lift keeps_and_then keeps_modify
          split: option.splits prod.splits)
  have "keeps validation_frame (classify_pages ps b)" for ps b
    unfolding classify_pages_def
    by (intro keeps_and_then keeps_lift) (simp add: sel keeps_return split: prod.splits)
  then show ?thesis
    by (cases "u_pages a") (simp_all add: validate_pages_def keeps_return)
qed

lemma update_validation_failure:
  assumes "fst (validate_pages a (update_pages_attr a s)) = Inl e"
  shows "fst (update a h s) = Inl e \<and> validation_frame (snd (update a h s)) = validation_frame s"
proof -
  obtain r s2 where v: "validate_pages a (update_pages_attr a s) = (r, s2)"
    by (cases "validate_pages a (update_pages_attr a s)")
  with assms have r: "r = Inl e" by simp
  have "validation_frame s2 = validation_frame (update_pages_attr a s)"
    using keepsD[OF keeps_validate_pages, of a "update_pages_attr a s"] v by simp
  also have "\<dots> = validation_frame s"
    by (simp add: validation_frame_def update_pages_attr_def Let_def)
  finally have "validation_frame s2 = validation_frame s" .
  moreover have "update a h s = (Inl e, s2)"
    using v r by (simp add: update_unfold validate_pages_def)
  ultimately show ?thesis by simp
qed

lemma update_two_defaults:
  assumes "u_pages a = Some ps" and "list_all is_PageGroup ps"
    and "2 \<le> length (filter is_default ps)"
  shows "update a h s =
        (Inl ValueError_default_group,
         s\<lparr>pages := ps,
           show_menu := (case u_show_menu a of Some b \<Rightarrow> b | None \<Rightarrow> show_menu s)\<rparr>)"
proof -
  from assms(3) have ne: "ps \<noteq> []" by auto
  have sc: "scan_page_groups ps None = Inl ValueError_default_group"
    using assms(2,3) by (rule scan_two_defaults)
  have "update_pages_attr a s =
      s\<lparr>pages := ps, show_menu := (case u_show_menu a of Some b \<Rightarrow> b | None \<Rightarrow> show_menu s)\<rparr>"
    using assms(1) ne by (simp add: update_pages_attr_def Let_def split: option.splits)
  moreover have "classify_pages ps b s1 = (Inl ValueError_default_group, s1)" for b s1
    by (simp add: classify_pages_def and_then_def lift_def sc)
  ultimately show ?thesis
    using assms(1) by (simp add: update_unfold)
qed

text \<open>
  Claim C3, as the code has it. \<open>update\<close> assigns \<open>pages\<close> and \<open>show_menu\<close> before it
  looks at the page list, and \<open>page_groups\<close> and \<open>default_page_group\<close> while it does.
  When the list given is a list of PageGroups with more than one flagged default,
  \<open>update\<close> raises the ValueError and leaves the paginator as it was except that
  \<open>pages\<close> is the list given and \<open>show_menu\<close> the value given (if one was).
  Whenever the validation of the page list raises, \<open>update\<close> raises the same
  exception and the paginator differs from what it was at most in \<open>pages\<close>,
  \<open>show_menu\<close>, \<open>page_groups\<close> and \<open>default_page_group\<close>: \<open>page_count\<close>,
  \<open>current_page\<close>, the other configuration attributes and the button registry are
  unchanged.
\<close>

theorem update_validation_error:
  "(u_pages a = Some ps \<and> list_all is_PageGroup ps \<and> 2 \<le> length (filter is_default ps) \<longrightarrow>
      update a h s =
        (Inl ValueError_default_group,
         s\<lparr>pages := ps,
           show_menu := (case u_show_menu a of Some b \<Rightarrow> b | None \<Rightarrow> show_menu s)\<rparr>)) \<and>
   (fst (validate_pages a (update_pages_attr a s)) = Inl e \<longrightarrow>
      fst (update a h s) = Inl e \<and>
      snd (update a h s) =
        s\<lparr>pages := pages (snd (update a h s)),
          show_menu := show_menu (snd (update a h s)),
          page_groups := page_groups (snd (update a h s)),
          default_page_group := default_page_group (snd (update a h s))\<rparr>)"
proof (intro conjI impI)
  assume "u_pages a = Some ps \<and> list_all is_PageGroup ps \<and> 2 \<le> length (filter is_default ps)"
  then show "update a h s =
        (Inl ValueError_default_group,
         s\<lparr>pages := ps,
           show_menu := (case u_show_menu a of Some b \<Rightarrow> b | None \<Rightarrow> show_menu s)\<rparr>)"
    by (simp add: update_two_defaults)
next
  assume f: "fst (validate_pages a (update_pages_attr a s)) = Inl e"
  from update_validation_failure[OF f, of h]
  show "fst (update a h s) = Inl e" by simp
  let ?s' = "snd (update a h s)"
  from update_validation_failure[OF f, of h]
  have vf: "validation_frame ?s' = validation_frame s" by simp
  have "?s' = (validation_frame ?s')\<lparr>pages := pages ?s', show_menu := show_menu ?s',
          page_groups := page_groups ?s', default_page_group := default_page_group ?s'\<rparr>"
    by (simp add: validation_frame_def)
  also have "\<dots> = s\<lparr>pages := pages ?s', show_menu := show_menu ?s',
          page_groups := page_groups ?s', default_page_group := default_page_group ?s'\<rparr>"
    by (simp add: vf) (simp add: validation_frame_def)
  finally show "?s' = s\<lparr>pages := pages ?s', show_menu := show_menu ?s',
          page_groups := page_groups ?s', default_page_group := default_page_group ?s'\<rparr>" .
qed

text \<open>
  Claim C3 as stated fails: an update of the five-page example with two groups both
  flagged default raises, and \<open>pages\<close> is then the list of the two groups.
\<close>

theorem update_validation_error_counterexample:
  "fst (update (update_defaults\<lparr>u_pages := Some two_defaults\<rparr>) host_ok example_sent) =
     Inl ValueError_default_group \<and>
   pages (snd (update (update_defaults\<lparr>u_pages := Some two_defaults\<rparr>) host_ok example_sent)) =
     two_defaults \<and>
   pages (snd (update (update_defaults\<lparr>u_pages := Some two_defaults\<rparr>) host_ok example_sent)) \<noteq>
     pages example_sent"
proof -
  have "update (update_defaults\<lparr>u_pages := Some two_defaults\<rparr>) host_ok example_sent =
      (Inl ValueError_default_group, example_sent\<lparr>pages := two_defaults\<rparr>)"
    using update_two_defaults[where a = "update_defaults\<lparr>u_pages := Some two_defaults\<rparr>"
        and ps = two_defaults and h = host_ok and s = example_sent]
    by (simp add: two_defaults_def update_defaults_def)
  then show ?thesis
    by (simp add: example_sent_fields) (simp add: two_defaults_def)
qed

theorem update_validation_error_witness:
  "update (update_defaults\<lparr>u_pages := Some two_defaults\<rparr>) host_ok example_sent =
     (Inl ValueError_default_group, example_sent\<lparr>pages := two_defaults\<rparr>) \<and>
   fst (update (update_defaults\<lparr>u_pages := Some one_plain_group\<rparr>) host_ok example_sent) =
     Inl ValueError_not_in_list \<and>
   snd (update (update_defaults\<lparr>u_pages := Some one_plain_group\<rparr>) host_ok example_sent) =
     example_sent\<lparr>pages := one_plain_group, page_groups := Some []\<rparr>"
proof -
  let ?a = "update_defaults\<lparr>u_pages := Some one_plain_group\<rparr>"
  have v: "validate_pages ?a (update_pages_attr ?a example_sent) =
      (Inl ValueError_not_in_list, example_sent\<lparr>pages := one_plain_group, page_groups := Some []\<rparr>)"
    by (simp add: validate_pages_def update_pages_attr_def update_defaults_def one_plain_group_def
        classify_pages_def select_page_group_def mdefs)
  have u: "update ?a host_ok example_sent =
      (Inl ValueError_not_in_list, example_sent\<lparr>pages := one_plain_group, page_groups := Some []\<rparr>)"
    using v by (simp add: update_unfold validate_pages_def update_defaults_def)
  show ?thesis
    using update_validation_error[where a = "update_defaults\<lparr>u_pages := Some two_defaults\<rparr>"
        and ps = two_defaults and h = host_ok and s = example_sent and e = ValueError_default_group]
      update_validation_error[where a = ?a
        and ps = one_plain_group and h = host_ok and s = example_sent and e = ValueError_not_in_list]
      v u
    by (simp add: two_defaults_def update_defaults_def)
qed

subsection \<open>Construction from page groups\<close>

lemma scan_no_default:
  "list_all is_PageGroup ps \<Longrightarrow> \<not> list_ex is_default ps \<Longrightarrow>
   scan_page_groups ps dg = Inr (True, dg)"
proof (induction ps)
  case Nil
  then show ?case by simp
next
  case (Cons x ps)
  then show ?case by (cases x) auto
qed

lemma scan_all_groups:
  "list_all is_PageGroup ps \<Longrightarrow> scan_page_groups ps dg = Inr (b, dg') \<Longrightarrow> b"
proof (induction ps arbitrary: dg)
  case Nil
  then show ?case by simp
next
  case (Cons x ps)
  then show ?case by (cases x) (auto split: if_splits)
qed

lemma list_index_notin: "x \<notin> set xs \<Longrightarrow> list_index xs x = Inl ValueError_not_in_list"
  by (induction xs) auto

lemma list_index_in:
  "x \<in> set xs \<Longrightarrow> \<exists>i. list_index xs x = Inr i \<and> i < length xs \<and> xs ! i = x"
proof (induction xs)
  case Nil
  then show ?case by simp
next
  case (Cons y ys)
  show ?case
  proof (cases "y = x")
    case True
    then show ?thesis by simp
  next
    case False
    with Cons obtain i where "list_index ys x = Inr i" "i < length ys" "ys ! i = x" by auto
    with False show ?thesis by simp
  qed
qed

lemma select_no_default:
  "select_page_group b None s =
     (Inl ValueError_not_in_list, s\<lparr>page_groups := Some (if b then pages s else [])\<rparr>)"
proof -
  have "list_index (map Some gs) (None :: pyval option) = Inl ValueError_not_in_list" for gs
    by (rule list_index_notin) auto
  then show ?thesis
    by (simp add: select_page_group_def mdefs)
qed

lemma select_no_menu:
  "select_page_group False dg s = (Inl ValueError_not_in_list, s\<lparr>page_groups := Some []\<rparr>)"
  by (simp add: select_page_group_def mdefs)

text \<open>
  Claim C2, evaluated on the code. A page list of PageGroups none of which is flagged
  default makes the constructor raise: \<open>default_group\<close> is still \<open>None\<close> after the
  loop, and \<open>self.page_groups.index(None)\<close> raises ValueError. With \<open>show_menu\<close> false
  (the default) every page list of PageGroups makes it raise, since the list searched
  is then empty. The claim, like the docstring of the class, has the first group
  displayed in both cases.
\<close>

theorem init_no_default_group:
  "(list_all is_PageGroup ps \<and> \<not> list_ex is_default ps \<longrightarrow>
      Paginator_init objs free (a\<lparr>i_pages := ps\<rparr>) = Inl ValueError_not_in_list) \<and>
   (list_all is_PageGroup ps \<and> \<not> i_show_menu a \<longrightarrow>
      Paginator_init objs free (a\<lparr>i_pages := ps\<rparr>) = Inl ValueError_not_in_list \<or>
      Paginator_init objs free (a\<lparr>i_pages := ps\<rparr>) = Inl ValueError_default_group)"
proof (intro conjI impI)
  assume "list_all is_PageGroup ps \<and> \<not> list_ex is_default ps"
  then have "scan_page_groups ps None = Inr (True, None)"
    by (simp add: scan_no_default)
  then show "Paginator_init objs free (a\<lparr>i_pages := ps\<rparr>) = Inl ValueError_not_in_list"
    by (simp add: Paginator_init_def classify_pages_def and_then_def lift_def select_no_default)
next
  assume as: "list_all is_PageGroup ps \<and> \<not> i_show_menu a"
  show "Paginator_init objs free (a\<lparr>i_pages := ps\<rparr>) = Inl ValueError_not_in_list \<or>
      Paginator_init objs free (a\<lparr>i_pages := ps\<rparr>) = Inl ValueError_default_group"
  proof (cases "scan_page_groups ps None")
    case (Inl e)
    then have "e = ValueError_default_group" by (rule scan_error)
    with Inl show ?thesis
      by (simp add: Paginator_init_def classify_pages_def and_then_def lift_def)
  next
    case (Inr r)
    obtain b dg where r: "r = (b, dg)" by (cases r)
    with Inr as have b by (auto dest: scan_all_groups)
    with Inr r as show ?thesis
      by (simp add: Paginator_init_def classify_pages_def and_then_def lift_def select_no_menu)
  qed
qed

theorem init_no_default_group_witness:
  "Paginator_init no_objs 0 ((init_defaults one_plain_group)\<lparr>i_show_menu := True\<rparr>) =
     Inl ValueError_not_in_list \<and>
   Paginator_init no_objs 0 (init_defaults one_plain_group) = Inl ValueError_not_in_list \<and>
   Paginator_init no_objs 0 (init_defaults one_default_group) = Inl ValueError_not_in_list"
proof -
  have e: "(init_defaults x)\<lparr>i_pages := x\<rparr> = init_defaults x"
    "(init_defaults x)\<lparr>i_show_menu := True, i_pages := x\<rparr> = (init_defaults x)\<lparr>i_show_menu := True\<rparr>" for x
    by (simp_all add: init_defaults_def)
  have d: "Paginator_init no_objs 0 (init_defaults one_default_group) \<noteq> Inl ValueError_default_group"
    by (simp add: Paginator_init_def classify_pages_def select_page_group_def mdefs
        one_default_group_def init_defaults_def init_state_def)
  show ?thesis
    using init_no_default_group[where ps = one_plain_group and objs = no_objs and free = 0
        and a = "(init_defaults one_plain_group)\<lparr>i_show_menu := True\<rparr>"]
      init_no_default_group[where ps = one_plain_group and objs = no_objs and free = 0
        and a = "init_defaults one_plain_group"]
      init_no_default_group[where ps = one_default_group and objs = no_objs and free = 0
        and a = "init_defaults one_default_group"]
      d
    by (simp add: e) (simp add: one_plain_group_def one_default_group_def init_defaults_def)
qed

text \<open>
  What does hold of the constructor on page groups: with \<open>show_menu\<close> true and exactly
  one group flagged default, whose items all normalize, the construction succeeds
  and the pages are the normalized content of that group.
\<close>

lemma scan_one_default:
  "list_all is_PageGroup ps \<Longrightarrow> filter is_default ps = [GroupV g] \<Longrightarrow>
   scan_page_groups ps None = Inr (True, Some g)"
proof (induction ps)
  case Nil
  then show ?case by simp
next
  case (Cons x ps)
  show ?case
  proof (cases x)
    case (GroupV g')
    show ?thesis
    proof (cases "default_flag g'")
      case True
      with Cons.prems GroupV have g: "g' = g" and e: "filter is_default ps = []" by auto
      from e have "\<not> list_ex is_default ps"
        by (simp add: list_ex_iff filter_empty_conv)
      with Cons.prems GroupV True g show ?thesis
        by (simp add: scan_no_default)
    next
      case False
      with Cons GroupV show ?thesis by simp
    qed
  qed (use Cons.prems in simp_all)
qed

lemma getitem_nth: "i < length xs \<Longrightarrow> getitem xs (int i) = Inr (xs ! i)"
  by (simp add: getitem_def)

lemma init_one_default_group:
  assumes "list_all is_PageGroup ps" and "filter is_default ps = [GroupV g]"
    and "i_show_menu a"
    and "comprehension get_page_content (group_pages g) = Inr normal"
  shows "\<exists>s. Paginator_init objs free (a\<lparr>i_pages := ps\<rparr>) = Inr s \<and>
             pages s = map PageV normal \<and> page_groups s = Some ps \<and>
             page_count s = max (int (length normal) - 1) 0 \<and> current_page s = 0"
proof -
  let ?a = "a\<lparr>i_pages := ps\<rparr>"
  let ?s0 = "init_state objs free ?a"
  have sc: "scan_page_groups ps None = Inr (True, Some g)"
    using assms(1,2) by (rule scan_one_default)
  have "GroupV g \<in> set (filter is_default ps)" using assms(2) by simp
  then have "Some (GroupV g) \<in> set (map Some ps)" by auto
  from list_index_in[OF this]
  obtain i where i: "list_index (map Some ps) (Some (GroupV g)) = Inr i" "i < length ps"
    "ps ! i = GroupV g" by auto
  have c: "classify_pages ps True ?s0 =
      (Inr (), ?s0\<lparr>page_groups := Some ps, default_page_group := i, pages := map PageV normal\<rparr>)"
    using i assms(4)
    by (simp add: classify_pages_def select_page_group_def mdefs sc getitem_nth init_state_def)
  obtain s where s: "Paginator_init objs free ?a = Inr s"
    "s = (let s3 = init_buttons (set_page_count
              (?s0\<lparr>page_groups := Some ps, default_page_group := i, pages := map PageV normal\<rparr>))
          in if show_menu s3 then add_menu s3 else s3)"
    using c assms(3) by (simp add: Paginator_init_def and_then_def modify_def Let_def)
  have m: "pages (add_menu x) = pages x" "page_groups (add_menu x) = page_groups x" for x
    by (simp_all add: add_menu_def add_item_def Let_def)
  have pg: "page_groups (init_buttons x) = page_groups x" for x
  proof -
    have "page_groups (registry_frame (init_buttons x)) = page_groups (registry_frame x)"
      by (simp add: rf_init_buttons)
    then show ?thesis by (simp add: registry_frame_def)
  qed
  have "pages s = map PageV normal \<and> page_groups s = Some ps"
    by (simp add: s(2) Let_def m pg init_buttons_nav set_page_count_def)
  with init_nav[OF s(1)] s(1) show ?thesis by simp
qed

subsection \<open>Parameters that an update leaves out\<close>

lemma opt_set_None: "opt_set None g s = s"
  by (simp add: opt_set_def)

lemma missing_set_MISSING: "missing_set MISSING g s = s"
  by (simp add: missing_set_def)

lemma update_config_omitted:
  "u_show_disabled a = None \<Longrightarrow> show_disabled (update_config a s) = show_disabled s"
  "u_show_indicator a = None \<Longrightarrow> show_indicator (update_config a s) = show_indicator s"
  "u_author_check a = None \<Longrightarrow> usercheck (update_config a s) = usercheck s"
  "u_menu_placeholder a = None \<Longrightarrow> menu_placeholder (update_config a s) = menu_placeholder s"
  "u_disable_on_timeout a = None \<Longrightarrow> disable_on_timeout (update_config a s) = disable_on_timeout s"
  "u_use_default_buttons a = None \<Longrightarrow> use_default_buttons (update_config a s) = use_default_buttons s"
  "u_default_button_row a = None \<Longrightarrow> default_button_row (update_config a s) = default_button_row s"
  "u_loop_pages a = None \<Longrightarrow> loop_pages (update_config a s) = loop_pages s"
  "u_timeout a = MISSING \<Longrightarrow> timeout (update_config a s) = timeout s"
  "u_trigger_on_display a = None \<Longrightarrow> trigger_on_display (update_config a s) = trigger_on_display s"
  "u_users a = MISSING \<Longrightarrow> users (update_config a s) = users s"
  "u_custom_buttons a = MISSING \<Longrightarrow> custom_buttons (update_config a s) = custom_buttons s"
  by (simp_all add: update_config_def Let_def opt_set_None missing_set_MISSING
        opt_set_keep[where f = show_disabled] missing_set_keep[where f = show_disabled]
        opt_set_keep[where f = show_indicator] missing_set_keep[where f = show_indicator]
        opt_set_keep[where f = usercheck] missing_set_keep[where f = usercheck]
        opt_set_keep[where f = menu_placeholder] missing_set_keep[where f = menu_placeholder]
        opt_set_keep[where f = disable_on_timeout] missing_set_keep[where f = disable_on_timeout]
        opt_set_keep[where f = use_default_buttons] missing_set_keep[where f = use_default_buttons]
        opt_set_keep[where f = default_button_row] missing_set_keep[where f = default_button_row]
        opt_set_keep[where f = loop_pages] missing_set_keep[where f = loop_pages]
        opt_set_keep[where f = timeout] missing_set_keep[where f = timeout]
        opt_set_keep[where f = trigger_on_display] missing_set_keep[where f = trigger_on_display]
        opt_set_keep[where f = users] missing_set_keep[where f = users]
        opt_set_keep[where f = custom_buttons] missing_set_keep[where f = custom_buttons])

lemma update_config_custom_view:
  "custom_view (update_config a s) =
     (if u_custom_view a = Given None then custom_view s else u_custom_view a)"
  by (simp add: update_config_def Let_def
        opt_set_keep[where f = custom_view] missing_set_keep[where f = custom_view])

lemma update_config_attr:
  assumes c: "config_attr f"
  shows "f (snd (update a h s)) =
           (case validate_pages a (update_pages_attr a s) of
              (Inl e, s2) \<Rightarrow> f s
            | (Inr u, s2) \<Rightarrow> f (update_config a (update_current_page a s2))) \<and>
         f (snd (validate_pages a (update_pages_attr a s))) = f s"
proof -
  obtain r s2 where v: "validate_pages a (update_pages_attr a s) = (r, s2)"
    by (cases "validate_pages a (update_pages_attr a s)")
  have "validation_frame s2 = validation_frame (update_pages_attr a s)"
    using keepsD[OF keeps_validate_pages, of a "update_pages_attr a s"] v by simp
  also have "\<dots> = validation_frame s"
    by (simp add: validation_frame_def update_pages_attr_def Let_def)
  finally have "f (validation_frame s2) = f (validation_frame s)" by simp
  with c have s2: "f s2 = f s" by (simp add: config_attr_def)
  show ?thesis
  proof (cases r)
    case (Inl e)
    with v s2 show ?thesis by (simp add: update_unfold validate_pages_def)
  next
    case (Inr u)
    let ?s3 = "reconfigure a s2"
    have "snd (update a h s) = snd (goto_page (current_page ?s3) (u_interaction a) h ?s3)"
      using v Inr by (simp add: update_unfold validate_pages_def)
    then have "f (frame (snd (update a h s))) = f (frame (?s3\<lparr>current_page := current_page ?s3\<rparr>))"
      by (simp add: goto_page_frame)
    with c have "f (snd (update a h s)) = f ?s3"
      by (simp add: config_attr_def)
    also have "\<dots> = f (registry_frame ?s3)"
      using c by (simp add: config_attr_def)
    also have "\<dots> = f (registry_frame (update_config a (update_current_page a s2)))"
      by (simp add: reconfigure_def rf_update_registry)
    also have "\<dots> = f (update_config a (update_current_page a s2))"
      using c by (simp add: config_attr_def)
    finally show ?thesis using v Inr s2 by simp
  qed
qed

lemma config_attrs:
  "config_attr show_disabled" "config_attr show_indicator" "config_attr usercheck"
  "config_attr menu_placeholder" "config_attr disable_on_timeout"
  "config_attr use_default_buttons" "config_attr default_button_row" "config_attr loop_pages"
  "config_attr timeout" "config_attr trigger_on_display" "config_attr users"
  "config_attr custom_buttons" "config_attr custom_view"
  by (simp_all add: config_attr_def frame_def registry_frame_def validation_frame_def)

lemma update_current_page_config: "config_attr f \<Longrightarrow> f (update_current_page a s) = f s"
  by (simp add: config_attr_def update_current_page_def set_page_count_def Let_def)

lemma update_omitted:
  assumes c: "config_attr f" and o: "\<And>t. f (update_config a t) = f t"
  shows "f (snd (update a h s)) = f s"
proof -
  obtain r s2 where v: "validate_pages a (update_pages_attr a s) = (r, s2)"
    by (cases "validate_pages a (update_pages_attr a s)")
  from update_config_attr[OF c, of a h s] v
  have 1: "f (snd (update a h s)) =
      (case r of Inl e \<Rightarrow> f s | Inr u \<Rightarrow> f (update_config a (update_current_page a s2)))"
    and 2: "f s2 = f s" by simp_all
  show ?thesis
    by (cases r) (simp_all add: 1 2 o update_current_page_config[OF c])
qed

lemma update_custom_view:
  assumes "fst (validate_pages a (update_pages_attr a s)) = Inr ()"
  shows "custom_view (snd (update a h s)) =
           (if u_custom_view a = Given None then custom_view s else u_custom_view a)"
proof -
  obtain r s2 where v: "validate_pages a (update_pages_attr a s) = (r, s2)"
    by (cases "validate_pages a (update_pages_attr a s)")
  with assms have r: "r = Inr ()" by simp
  from update_config_attr[OF config_attrs(13), of a h s] v r
  show ?thesis
    by (simp add: update_config_custom_view update_current_page_config[OF config_attrs(13)])
qed

lemma update_pages_omitted:
  assumes "u_pages a = None"
  shows "pages (snd (update a h s)) = pages s"
    and "fst (validate_pages a (update_pages_attr a s)) = Inr ()"
proof -
  have v: "validate_pages a (update_pages_attr a s) = (Inr (), update_pages_attr a s)"
    using assms by (simp add: validate_pages_def return_def)
  then show "fst (validate_pages a (update_pages_attr a s)) = Inr ()" by simp
  have "snd (update a h s) =
      snd (goto_page (current_page (reconfigure a (update_pages_attr a s))) (u_interaction a) h
             (reconfigure a (update_pages_attr a s)))"
    using assms by (simp add: update_unfold return_def)
  then show "pages (snd (update a h s)) = pages s"
    using assms by (simp add: goto_page_nav reconfigure_nav update_pages_attr_def Let_def)
qed

text \<open>
  Claim C4, evaluated on the code. A parameter of \<open>update\<close> that is left out leaves its
  attribute as it was, for every configuration parameter and for \<open>pages\<close>, except
  \<open>custom_view\<close>: its default is the sentinel \<open>discord.MISSING\<close> but the test is
  \<open>is not None\<close>, so an update that leaves \<open>custom_view\<close> out assigns the sentinel to
  \<open>self.custom_view\<close> and the custom view is lost, while an update that passes
  \<open>None\<close> leaves the attribute as it was. The tests for \<open>timeout\<close>, \<open>users\<close> and
  \<open>custom_buttons\<close> are \<open>is not discord.MISSING\<close>, as the claim has it for all.
\<close>

theorem update_omitted_parameters:
  "(u_show_disabled a = None \<longrightarrow> show_disabled (snd (update a h s)) = show_disabled s) \<and>
   (u_show_indicator a = None \<longrightarrow> show_indicator (snd (update a h s)) = show_indicator s) \<and>
   (u_author_check a = None \<longrightarrow> usercheck (snd (update a h s)) = usercheck s) \<and>
   (u_menu_placeholder a = None \<longrightarrow> menu_placeholder (snd (update a h s)) = menu_placeholder s) \<and>
   (u_disable_on_timeout a = None \<longrightarrow>
      disable_on_timeout (snd (update a h s)) = disable_on_timeout s) \<and>
   (u_use_default_buttons a = None \<longrightarrow>
      use_default_buttons (snd (update a h s)) = use_default_buttons s) \<and>
   (u_default_button_row a = None \<longrightarrow>
      default_button_row (snd (update a h s)) = default_button_row s) \<and>
   (u_loop_pages a = None \<longrightarrow> loop_pages (snd (update a h s)) = loop_pages s) \<and>
   (u_trigger_on_display a = None \<longrightarrow>
      trigger_on_display (snd (update a h s)) = trigger_on_display s) \<and>
   (u_timeout a = MISSING \<longrightarrow> timeout (snd (update a h s)) = timeout s) \<and>
   (u_users a = MISSING \<longrightarrow> users (snd (update a h s)) = users s) \<and>
   (u_custom_buttons a = MISSING \<longrightarrow> custom_buttons (snd (update a h s)) = custom_buttons s) \<and>
   (u_pages a = None \<longrightarrow> pages (snd (update a h s)) = pages s) \<and>
   (u_pages a = None \<and> u_custom_view a = MISSING \<longrightarrow>
      custom_view (snd (update a h s)) = MISSING) \<and>
   (u_pages a = None \<and> u_custom_view a = Given None \<longrightarrow>
      custom_view (snd (update a h s)) = custom_view s)"
  by (intro conjI impI)
     (simp_all add: update_omitted config_attrs update_config_omitted update_pages_omitted
        update_custom_view)

theorem update_omitted_parameters_witness:
  "custom_view example_with_view = Given (Some (View [7])) \<and>
   ViewItem 7 \<in> set (children example_with_view) \<and>
   fst (update update_defaults host_ok example_with_view) = Inr () \<and>
   custom_view (snd (update update_defaults host_ok example_with_view)) = MISSING \<and>
   ViewItem 7 \<notin> set (children (snd (update update_defaults host_ok example_with_view))) \<and>
   timeout (snd (update update_defaults host_ok example_with_view)) = Some 180"
proof -
  have "\<exists>s. example_with_view = s \<and> custom_view s = Given (Some (View [7])) \<and>
      ViewItem 7 \<in> set (children s) \<and> timeout s = Some 180"
    by (simp add: example_with_view_def init_simps respond_def render_simps)
  then have 1: "custom_view example_with_view = Given (Some (View [7])) \<and>
      ViewItem 7 \<in> set (children example_with_view) \<and> timeout example_with_view = Some 180"
    by auto
  have "\<exists>s'. update update_defaults host_ok example_with_view = (Inr (), s') \<and>
      ViewItem 7 \<notin> set (children s')"
    by (simp add: example_with_view_def init_simps respond_def render_simps update_simps)
  then have 2: "fst (update update_defaults host_ok example_with_view) = Inr ()"
    and 3: "ViewItem 7 \<notin> set (children (snd (update update_defaults host_ok example_with_view)))"
    by auto
  show ?thesis
    using update_omitted_parameters[where a = update_defaults and h = host_ok
        and s = example_with_view] 1 2 3
    by (simp add: update_defaults_def)
qed

subsection \<open>Previous and next button when pages loop\<close>

text \<open>
  What \<open>update_buttons\<close> does to the previous and the next button, for a registry
  whose buttons are different objects: without looping, the previous button is
  hidden exactly when the current page is at most 0 and the next button (for a
  current page within the page count) exactly when it is the last page, both with
  their normal labels; at an interior page both are visible with normal labels;
  with looping, at the ends, the label is the loop label and \<open>hidden\<close> is what it was
  before the render.
\<close>

lemma distinct_refs:
  assumes "distinct (map snd al)" and "map_of al k = Some r" and "map_of al k' = Some r'"
    and "k \<noteq> k'"
  shows "r \<noteq> r'"
proof
  assume "r = r'"
  from assms(2,3) have "(k, r) \<in> set al" "(k', r') \<in> set al"
    by (auto dest: map_of_SomeD)
  with \<open>r = r'\<close> assms(1) have "(k, r) = (k', r)"
    by (metis distinct_map inj_onD snd_conv)
  with assms(4) show False by simp
qed

lemma render_button_objs:
  "hidden (button_objs (render_button kb s) r) = hidden (button_objs s r)"
  "label (button_objs (render_button kb s) r) = label (button_objs s r)"
  "orig_label (button_objs (render_button kb s) r) = orig_label (button_objs s r)"
  "loop_label (button_objs (render_button kb s) r) = loop_label (button_objs s r)"
  by (cases kb; simp add: render_button_def Let_def add_item_def set_obj_def)+

lemma fold_render_button_objs:
  "hidden (button_objs (fold render_button bs s) r) = hidden (button_objs s r)"
  "label (button_objs (fold render_button bs s) r) = label (button_objs s r)"
  "orig_label (button_objs (fold render_button bs s) r) = orig_label (button_objs s r)"
  "loop_label (button_objs (fold render_button bs s) r) = loop_label (button_objs s r)"
  by (induction bs arbitrary: s; simp add: render_button_objs)+

lemma add_menu_objs: "button_objs (add_menu s) = button_objs s"
  by (simp add: add_menu_def add_item_def Let_def)

lemma fold_add_item_objs: "button_objs (fold add_item its s) = button_objs s"
  by (induction its arbitrary: s) (simp_all add: add_item_def)

lemma fold_remove_item_objs: "button_objs (fold remove_item its s) = button_objs s"
  by (induction its arbitrary: s) (simp_all add: remove_item_def)

lemma add_own_custom_view_objs: "button_objs (add_own_custom_view s) = button_objs s"
  by (simp add: add_own_custom_view_def update_custom_view_def add_items_def remove_items_def
      fold_add_item_objs fold_remove_item_objs Let_def split: missing.splits option.splits)

lemma set_obj_static:
  "buttons (set_obj r g s) = buttons s" "show_indicator (set_obj r g s) = show_indicator s"
  "show_menu (set_obj r g s) = show_menu s" "current_page (set_obj r g s) = current_page s"
  "page_count (set_obj r g s) = page_count s" "loop_pages (set_obj r g s) = loop_pages s"
  by (simp_all add: set_obj_def)

lemma update_next_button_static:
  "buttons (update_next_button r s) = buttons s"
  "show_indicator (update_next_button r s) = show_indicator s"
  "show_menu (update_next_button r s) = show_menu s"
  "current_page (update_next_button r s) = current_page s"
  "page_count (update_next_button r s) = page_count s"
  "loop_pages (update_next_button r s) = loop_pages s"
  by (simp_all add: update_next_button_def set_obj_static)

lemma update_prev_button_static:
  "buttons (update_prev_button r s) = buttons s"
  "show_indicator (update_prev_button r s) = show_indicator s"
  "show_menu (update_prev_button r s) = show_menu s"
  "current_page (update_prev_button r s) = current_page s"
  "page_count (update_prev_button r s) = page_count s"
  "loop_pages (update_prev_button r s) = loop_pages s"
  by (simp_all add: update_prev_button_def set_obj_static)

lemma clear_items_static:
  "buttons (clear_items s) = buttons s" "show_indicator (clear_items s) = show_indicator s"
  "show_menu (clear_items s) = show_menu s" "button_objs (clear_items s) = button_objs s"
  by (simp_all add: clear_items_def)

lemmas static = set_obj_static update_next_button_static update_prev_button_static
  clear_items_static

lemma update_buttons_prev_next:
  assumes ok: "update_buttons s = (Inr bs, s')"
    and d: "distinct (map snd (buttons s))"
    and p: "map_of (buttons s) Prev = Some rp" and n: "map_of (buttons s) Next = Some rn"
  shows "\<not> loop_pages s \<Longrightarrow>
           hidden (button_objs s' rp) = (current_page s \<le> 0) \<and>
           label (button_objs s' rp) = orig_label (button_objs s' rp)"
    and "\<not> loop_pages s \<Longrightarrow> current_page s \<le> page_count s \<Longrightarrow>
           hidden (button_objs s' rn) = (current_page s = page_count s) \<and>
           label (button_objs s' rn) = orig_label (button_objs s' rn)"
    and "loop_pages s \<Longrightarrow> current_page s \<le> 0 \<Longrightarrow>
           hidden (button_objs s' rp) = hidden (button_objs s rp) \<and>
           label (button_objs s' rp) = loop_label (button_objs s' rp)"
    and "loop_pages s \<Longrightarrow> current_page s = page_count s \<Longrightarrow>
           hidden (button_objs s' rn) = hidden (button_objs s rn) \<and>
           label (button_objs s' rn) = loop_label (button_objs s' rn)"
    and "0 < current_page s \<Longrightarrow> current_page s < page_count s \<Longrightarrow>
           \<not> hidden (button_objs s' rp) \<and> \<not> hidden (button_objs s' rn) \<and>
           label (button_objs s' rp) = orig_label (button_objs s' rp) \<and>
           label (button_objs s' rn) = orig_label (button_objs s' rn)"
proof -
  obtain rf where f: "map_of (buttons s) First = Some rf"
    using ok
    by (cases "map_of (buttons s) First") (simp_all add: update_buttons_def mdefs buttons_getitem_def)
  obtain rl where l: "map_of (buttons s) Last = Some rl"
    using ok f
    by (cases "map_of (buttons s) Last")
       (simp_all add: update_buttons_def mdefs buttons_getitem_def static)
  have ne: "rf \<noteq> rp" "rf \<noteq> rn" "rl \<noteq> rp" "rl \<noteq> rn" "rn \<noteq> rp"
    using distinct_refs[OF d f p] distinct_refs[OF d f n] distinct_refs[OF d l p]
      distinct_refs[OF d l n] distinct_refs[OF d n p] by simp_all
  define s2 where "s2 = set_obj rl (\<lambda>b. b\<lparr>hidden := current_page s \<ge> page_count s - 1\<rparr>)
        (set_obj rf (\<lambda>b. b\<lparr>hidden := current_page s \<le> 1\<rparr>) s)"
  define s4 where "s4 = update_prev_button rp (update_next_button rn s2)"
  have s2: "hidden (button_objs s2 rp) = hidden (button_objs s rp)"
    "hidden (button_objs s2 rn) = hidden (button_objs s rn)"
    "label (button_objs s2 r) = label (button_objs s r)"
    "orig_label (button_objs s2 r) = orig_label (button_objs s r)"
    "loop_label (button_objs s2 r) = loop_label (button_objs s r)"
    "current_page s2 = current_page s" "page_count s2 = page_count s"
    "loop_pages s2 = loop_pages s" for r
    using ne by (simp_all add: s2_def set_obj_def)
  have look: "hidden (button_objs s' r) = hidden (button_objs s4 r) \<and>
      orig_label (button_objs s' r) = orig_label (button_objs s4 r) \<and>
      loop_label (button_objs s' r) = loop_label (button_objs s4 r)"
    and look_label: "r = rp \<or> r = rn \<Longrightarrow> label (button_objs s' r) = label (button_objs s4 r)" for r
  proof -
    show "hidden (button_objs s' r) = hidden (button_objs s4 r) \<and>
      orig_label (button_objs s' r) = orig_label (button_objs s4 r) \<and>
      loop_label (button_objs s' r) = loop_label (button_objs s4 r)"
    proof (cases "show_indicator s")
      case False
      then have "s' = add_own_custom_view
          ((\<lambda>t. if show_menu t then add_menu t else t)
            (fold render_button (buttons s) (clear_items s4)))"
        using ok f l p n
        by (simp add: update_buttons_def mdefs buttons_getitem_def static s4_def s2_def
            cong: if_cong)
      then show ?thesis
        by (simp add: add_own_custom_view_objs add_menu_objs fold_render_button_objs static)
    next
      case True
      then obtain ri where i: "map_of (buttons s) Page_indicator = Some ri"
        using ok f l p n
        by (cases "map_of (buttons s) Page_indicator")
           (simp_all add: update_buttons_def mdefs buttons_getitem_def static)
      from True have "s' = add_own_custom_view
          ((\<lambda>t. if show_menu t then add_menu t else t)
            (fold render_button (buttons s)
              (set_obj ri (\<lambda>b. b\<lparr>label := Some (indicator_label (clear_items s4))\<rparr>)
                 (clear_items s4))))"
        using ok f l p n i
        by (simp add: update_buttons_def mdefs buttons_getitem_def static s4_def s2_def
            cong: if_cong)
      then show ?thesis
        by (simp add: add_own_custom_view_objs add_menu_objs fold_render_button_objs static)
           (simp add: set_obj_def static)
    qed
    show "label (button_objs s' r) = label (button_objs s4 r)" if "r = rp \<or> r = rn"
    proof (cases "show_indicator s")
      case False
      then have "s' = add_own_custom_view
          ((\<lambda>t. if show_menu t then add_menu t else t)
            (fold render_button (buttons s) (clear_items s4)))"
        using ok f l p n
        by (simp add: update_buttons_def mdefs buttons_getitem_def static s4_def s2_def
            cong: if_cong)
      then show ?thesis
        by (simp add: add_own_custom_view_objs add_menu_objs fold_render_button_objs static)
    next
      case True
      then obtain ri where i: "map_of (buttons s) Page_indicator = Some ri"
        using ok f l p n
        by (cases "map_of (buttons s) Page_indicator")
           (simp_all add: update_buttons_def mdefs buttons_getitem_def static)
      have nei: "ri \<noteq> rp" "ri \<noteq> rn"
        using distinct_refs[OF d i p] distinct_refs[OF d i n] by simp_all
      from True have "s' = add_own_custom_view
          ((\<lambda>t. if show_menu t then add_menu t else t)
            (fold render_button (buttons s)
              (set_obj ri (\<lambda>b. b\<lparr>label := Some (indicator_label (clear_items s4))\<rparr>)
                 (clear_items s4))))"
        using ok f l p n i
        by (simp add: update_buttons_def mdefs buttons_getitem_def static s4_def s2_def
            cong: if_cong)
      then show ?thesis
        using nei that
        by (simp add: add_own_custom_view_objs add_menu_objs fold_render_button_objs static)
           (auto simp: set_obj_def static)
    qed
  qed
  note s4 = s4_def update_prev_button_def update_next_button_def update_next_button_static
  show "\<not> loop_pages s \<Longrightarrow>
           hidden (button_objs s' rp) = (current_page s \<le> 0) \<and>
           label (button_objs s' rp) = orig_label (button_objs s' rp)"
    using ne by (simp add: look look_label) (simp add: s4 s2 set_obj_def)
  show "\<not> loop_pages s \<Longrightarrow> current_page s \<le> page_count s \<Longrightarrow>
           hidden (button_objs s' rn) = (current_page s = page_count s) \<and>
           label (button_objs s' rn) = orig_label (button_objs s' rn)"
    using ne by (simp add: look look_label) (auto simp: s4 s2 set_obj_def)
  show "loop_pages s \<Longrightarrow> current_page s \<le> 0 \<Longrightarrow>
           hidden (button_objs s' rp) = hidden (button_objs s rp) \<and>
           label (button_objs s' rp) = loop_label (button_objs s' rp)"
    using ne by (simp add: look look_label) (auto simp: s4 s2 set_obj_def)
  show "loop_pages s \<Longrightarrow> current_page s = page_count s \<Longrightarrow>
           hidden (button_objs s' rn) = hidden (button_objs s rn) \<and>
           label (button_objs s' rn) = loop_label (button_objs s' rn)"
    using ne by (simp add: look look_label) (auto simp: s4 s2 set_obj_def)
  show "0 < current_page s \<Longrightarrow> current_page s < page_count s \<Longrightarrow>
           \<not> hidden (button_objs s' rp) \<and> \<not> hidden (button_objs s' rn) \<and>
           label (button_objs s' rp) = orig_label (button_objs s' rp) \<and>
           label (button_objs s' rn) = orig_label (button_objs s' rn)"
    using ne by (simp add: look look_label) (auto simp: s4 s2 set_obj_def)
qed

text \<open>
  Claim C6, evaluated on the code. In the branches of \<open>update_buttons\<close> for
  \<open>loop_pages\<close> the label becomes the loop label but \<open>hidden\<close> is not assigned, as it
  is in every other branch; a button that an earlier render hid stays hidden. The
  five-page example is sent at page 0 without looping, which hides the previous
  button; \<open>update(use_default_buttons=False, loop_pages=True)\<close> keeps the button
  objects and renders page 0 again: the previous button has its loop label and is
  still hidden and disabled, where the claim has it visible. The same holds of the
  next button at the last page.
\<close>

theorem loop_buttons_stay_hidden:
  "(\<exists>s'. update (update_defaults\<lparr>u_use_default_buttons := Some False, u_loop_pages := Some True\<rparr>)
            host_ok example_sent = (Inr (), s') \<and>
         loop_pages s' \<and> page_count s' = 4 \<and> current_page s' = 0 \<and>
         map_of (buttons s') Prev = Some 1 \<and>
         hidden (button_objs s' 1) \<and> disabled (button_objs s' 1) \<and>
         label (button_objs s' 1) = loop_label (button_objs s' 1)) \<and>
   (\<exists>s'. update (update_defaults\<lparr>u_use_default_buttons := Some False, u_loop_pages := Some True,
                                 u_current_page := 4\<rparr>)
            host_ok (snd (goto_page 4 None host_ok example_sent)) = (Inr (), s') \<and>
         loop_pages s' \<and> page_count s' = 4 \<and> current_page s' = 4 \<and>
         map_of (buttons s') Next = Some 3 \<and>
         hidden (button_objs s' 3) \<and> disabled (button_objs s' 3) \<and>
         label (button_objs s' 3) = loop_label (button_objs s' 3))"
  by (simp add: example_sent_def example_paginator_def init_simps respond_def
        render_simps update_simps)

end
